theory Spec2Isabelle
  imports Main "HOL-Library.Sublist" "HOL-Library.List_Lexorder" "HOL-Library.Char_ord"
begin

section \<open>shoutbox-go: helpers, SMTP message assembly and the REST client\<close>

text \<open>
  Go strings and byte slices are sequences of bytes: both are \<open>string\<close> here (a list of
  8-bit characters). A Go \<open>error\<close> is modelled by its message: \<open>None\<close> (or \<open>Inr\<close>) is
  \<open>nil\<close>, \<open>Some msg\<close> (or \<open>Inl msg\<close>) is an error whose \<open>Error()\<close> text is \<open>msg\<close>.
\<close>

type_synonym error = string

subsection \<open>Data model (smtp.go)\<close>

record Attachment =
  Filename :: string
  Content :: string
  ContentType :: string

subsection \<open>Data model (client.go)\<close>

text \<open>
  The request of the REST transport. Its field names are those of the SMTP message
  below; where both are in scope, the fields of the request are written with the
  record's name in front.
\<close>

record EmailRequest =
  From :: string
  To :: string
  Subject :: string
  HTML :: string
  Name :: string
  ReplyTo :: string
  Headers :: "string \<rightharpoonup> string"

subsection \<open>Library functions used by helpers.go\<close>

text \<open>\<open>strings.Contains(s, substr)\<close>: \<open>substr\<close> occurs in \<open>s\<close> as a contiguous block.\<close>

fun Contains :: "string \<Rightarrow> string \<Rightarrow> bool" where
  "Contains [] sub = (sub = [])"
| "Contains (c # cs) sub = (prefix sub (c # cs) \<or> Contains cs sub)"

text \<open>
  \<open>path/filepath\<close> on a system whose only path separator is the slash.
  \<open>Ext\<close> scans from the end for a dot and stops at the first separator; it returns the
  suffix starting at that dot, or the empty string.
\<close>

definition IsPathSeparator :: "char \<Rightarrow> bool" where
  "IsPathSeparator c = (c = CHR ''/'')"

text \<open>\<open>ext_rev\<close> walks the reversed path; \<open>acc\<close> holds the bytes already passed.\<close>

fun ext_rev :: "string \<Rightarrow> string \<Rightarrow> string" where
  "ext_rev [] acc = []"
| "ext_rev (c # cs) acc =
     (if IsPathSeparator c then []
      else if c = CHR ''.'' then c # acc
      else ext_rev cs (c # acc))"

definition Ext :: "string \<Rightarrow> string" where
  "Ext path = ext_rev (rev path) []"

text \<open>
  \<open>Base\<close>: the empty path gives a dot; trailing separators are stripped; what follows the
  last separator is returned; a path of separators only gives a single separator.
\<close>

definition strip_trailing_slashes :: "string \<Rightarrow> string" where
  "strip_trailing_slashes path = rev (dropWhile IsPathSeparator (rev path))"

definition last_element :: "string \<Rightarrow> string" where
  "last_element path = rev (takeWhile (\<lambda>c. \<not> IsPathSeparator c) (rev path))"

definition Base :: "string \<Rightarrow> string" where
  "Base path =
     (if path = [] then ''.''
      else let p = last_element (strip_trailing_slashes path)
           in if p = [] then ''/'' else p)"

text \<open>
  What helpers.go reads from outside: the file system (\<open>os.ReadFile\<close>), and the table of
  registered MIME types (\<open>mime.TypeByExtension\<close>, which returns the empty string when the
  extension has no associated type). An \<open>io.Reader\<close> is given by what \<open>io.ReadAll\<close> gets
  from it: all its bytes, or an error.
\<close>

record environment =
  ReadFile :: "string \<Rightarrow> error + string"
  TypeByExtension :: "string \<Rightarrow> string"

type_synonym reader = "error + string"

subsection \<open>helpers.go\<close>

definition NewAttachmentFromFile :: "environment \<Rightarrow> string \<Rightarrow> error + Attachment" where
  "NewAttachmentFromFile env filePath =
     (case ReadFile env filePath of
        Inl err \<Rightarrow> Inl (''error reading file: '' @ err)
      | Inr content \<Rightarrow>
          (let contentType = TypeByExtension env (Ext filePath);
               contentType = (if contentType = [] then ''application/octet-stream''
                              else contentType)
           in Inr \<lparr>Filename = Base filePath, Content = content,
                   ContentType = contentType\<rparr>))"

definition NewAttachmentFromReader ::
    "environment \<Rightarrow> reader \<Rightarrow> string \<Rightarrow> error + Attachment" where
  "NewAttachmentFromReader env rd filename =
     (case rd of
        Inl err \<Rightarrow> Inl (''error reading content: '' @ err)
      | Inr content \<Rightarrow>
          (let contentType = TypeByExtension env (Ext filename);
               contentType = (if contentType = [] then ''application/octet-stream''
                              else contentType)
           in Inr \<lparr>Filename = filename, Content = content,
                   ContentType = contentType\<rparr>))"

definition ValidateEmail :: "string \<Rightarrow> error option" where
  "ValidateEmail email =
     (if \<not> Contains email ''@'' then Some (''invalid email address: '' @ email)
      else None)"

fun ValidateEmailList :: "string list \<Rightarrow> error option" where
  "ValidateEmailList [] = None"
| "ValidateEmailList (email # emails) =
     (case ValidateEmail email of
        Some err \<Rightarrow> Some err
      | None \<Rightarrow> ValidateEmailList emails)"

subsection \<open>A sample environment\<close>

text \<open>
  One file system and one MIME table to run the constructors on: a single readable file,
  and the extension of PDF documents as the only registered one.
\<close>

definition sample_env :: environment where
  "sample_env =
     \<lparr>ReadFile = (\<lambda>p. if p = ''/tmp/docs/report.pdf'' then Inr ''%PDF-1.4''
                       else Inl (''open '' @ p @ '': no such file or directory'')),
      TypeByExtension = (\<lambda>e. if e = ''.pdf'' then ''application/pdf'' else [])\<rparr>"

section \<open>The SMTP transport (smtp.go)\<close>

subsection \<open>Formatting: \<open>fmt\<close> and \<open>strconv\<close>\<close>

definition byte :: "char \<Rightarrow> nat" where
  "byte c = of_char c"

definition CRLF :: string where
  "CRLF = [CHR 0x0D, CHR 0x0A]"

text \<open>The verb \<open>%d\<close>: an integer in decimal, with a minus sign when negative.\<close>

definition digit :: "nat \<Rightarrow> char" where
  "digit d = ''0123456789'' ! d"

fun decimal :: "nat \<Rightarrow> string" where
  "decimal n = (if n < 10 then [digit n] else decimal (n div 10) @ [digit (n mod 10)])"

declare decimal.simps [simp del]

definition Itoa :: "int \<Rightarrow> string" where
  "Itoa i = (if i < 0 then CHR ''-'' # decimal (nat (- i)) else decimal (nat i))"

text \<open>\<open>strings.Join\<close>.\<close>

fun Join :: "string list \<Rightarrow> string \<Rightarrow> string" where
  "Join [] sep = []"
| "Join [x] sep = x"
| "Join (x # y # zs) sep = x @ sep @ Join (y # zs) sep"

text \<open>
  \<open>utf8.DecodeRuneInString\<close>: the first code point of a byte string and its width in
  bytes; an invalid or truncated encoding gives \<open>RuneError\<close> with width 1, the empty
  string gives width 0. The second byte of a sequence is checked against the range that
  the first byte allows (which excludes over-long forms, surrogates and values above
  U+10FFFF).
\<close>

definition RuneError :: nat where
  "RuneError = 0xFFFD"

fun DecodeRune :: "string \<Rightarrow> nat \<times> nat" where
  "DecodeRune [] = (RuneError, 0)"
| "DecodeRune (c0 # s) =
     (let s0 = byte c0 in
      if s0 < 0x80 then (s0, 1)
      else if s0 < 0xC2 \<or> 0xF4 < s0 then (RuneError, 1)
      else
        let sz = (if s0 < 0xE0 then 2 else if s0 < 0xF0 then 3 else 4 :: nat);
            lo = (if s0 = 0xE0 then 0xA0 else if s0 = 0xF0 then 0x90 else 0x80);
            hi = (if s0 = 0xED then 0x9F else if s0 = 0xF4 then 0x8F else 0xBF)
        in if length s + 1 < sz then (RuneError, 1)
           else
             let s1 = byte (s ! 0) in
             if s1 < lo \<or> hi < s1 then (RuneError, 1)
             else if sz \<le> 2 then ((s0 mod 0x20) * 0x40 + s1 mod 0x40, 2)
             else
               let s2 = byte (s ! 1) in
               if s2 < 0x80 \<or> 0xBF < s2 then (RuneError, 1)
               else if sz \<le> 3
                 then ((s0 mod 0x10) * 0x1000 + (s1 mod 0x40) * 0x40 + s2 mod 0x40, 3)
               else
                 let s3 = byte (s ! 2) in
                 if s3 < 0x80 \<or> 0xBF < s3 then (RuneError, 1)
                 else ((s0 mod 8) * 0x40000 + (s1 mod 0x40) * 0x1000
                         + (s2 mod 0x40) * 0x40 + s3 mod 0x40, 4))"

text \<open>
  \<open>strconv.IsPrint\<close>: decided by ranges up to U+00FF, and by the package's tables of
  printable code points above; the tables are a parameter.
\<close>

definition IsPrint :: "(nat \<Rightarrow> bool) \<Rightarrow> nat \<Rightarrow> bool" where
  "IsPrint wide r =
     (if r \<le> 0xFF then
        (if 0x20 \<le> r \<and> r \<le> 0x7E then True
         else if 0xA1 \<le> r \<and> r \<le> 0xFF then r \<noteq> 0xAD
         else False)
      else wide r)"

definition lowerhex :: "nat \<Rightarrow> char" where
  "lowerhex d = ''0123456789abcdef'' ! d"

definition hex2 :: "nat \<Rightarrow> string" where
  "hex2 n = [lowerhex (n div 16 mod 16), lowerhex (n mod 16)]"

definition hex4 :: "nat \<Rightarrow> string" where
  "hex4 n = hex2 (n div 256) @ hex2 n"

definition hex8 :: "nat \<Rightarrow> string" where
  "hex8 n = hex4 (n div 65536) @ hex4 n"

text \<open>
  \<open>strconv.Quote\<close>, which the verb \<open>%q\<close> applies to a string: a double-quoted Go string
  literal. The quote and the backslash get a backslash; printable code points are copied
  (\<open>raw\<close> is the encoding the code point was decoded from); the rest is escaped.
\<close>

definition appendEscapedRune :: "(nat \<Rightarrow> bool) \<Rightarrow> nat \<Rightarrow> string \<Rightarrow> string" where
  "appendEscapedRune wide r raw =
     (if r = 0x22 \<or> r = 0x5C then [CHR 0x5C, char_of r]
      else if IsPrint wide r then raw
      else if r = 7 then [CHR 0x5C, CHR ''a'']
      else if r = 8 then [CHR 0x5C, CHR ''b'']
      else if r = 12 then [CHR 0x5C, CHR ''f'']
      else if r = 10 then [CHR 0x5C, CHR ''n'']
      else if r = 13 then [CHR 0x5C, CHR ''r'']
      else if r = 9 then [CHR 0x5C, CHR ''t'']
      else if r = 11 then [CHR 0x5C, CHR ''v'']
      else if r < 0x20 \<or> r = 0x7F then [CHR 0x5C, CHR ''x''] @ hex2 r
      else if r < 0x10000 then [CHR 0x5C, CHR ''u''] @ hex4 r
      else [CHR 0x5C, CHR ''U''] @ hex8 r)"

fun appendQuoted :: "(nat \<Rightarrow> bool) \<Rightarrow> string \<Rightarrow> string" where
  "appendQuoted wide [] = []"
| "appendQuoted wide (c # cs) =
     (if byte c < 0x80 then appendEscapedRune wide (byte c) [c] @ appendQuoted wide cs
      else
        let (r, width) = DecodeRune (c # cs) in
        if width = 1 \<and> r = RuneError
          then [CHR 0x5C, CHR ''x''] @ hex2 (byte c) @ appendQuoted wide cs
        else appendEscapedRune wide r (take width (c # cs))
               @ appendQuoted wide (drop (width - 1) cs))"

definition Quote :: "(nat \<Rightarrow> bool) \<Rightarrow> string \<Rightarrow> string" where
  "Quote wide s = [CHR 0x22] @ appendQuoted wide s @ [CHR 0x22]"

subsection \<open>\<open>encoding/base64\<close>: the standard encoding, with padding\<close>

definition encodeStd :: "nat \<Rightarrow> char" where
  "encodeStd i =
     ''ABCDEFGHIJKLMNOPQRSTUVWXYZabcdefghijklmnopqrstuvwxyz0123456789+/'' ! i"

text \<open>
  Three bytes give four characters of six bits each; a remainder of one or two bytes is
  padded with equals signs. The streaming encoder the code uses (one \<open>Write\<close>, then
  \<open>Close\<close>) emits this encoding of all the bytes written.
\<close>

fun EncodeToString :: "string \<Rightarrow> string" where
  "EncodeToString (a # b # c # src) =
     (let val = byte a * 65536 + byte b * 256 + byte c
      in encodeStd (val div 262144 mod 64) # encodeStd (val div 4096 mod 64)
           # encodeStd (val div 64 mod 64) # encodeStd (val mod 64)
           # EncodeToString src)"
| "EncodeToString [a, b] =
     (let val = byte a * 65536 + byte b * 256
      in [encodeStd (val div 262144 mod 64), encodeStd (val div 4096 mod 64),
          encodeStd (val div 64 mod 64), CHR ''=''])"
| "EncodeToString [a] =
     (let val = byte a * 65536
      in [encodeStd (val div 262144 mod 64), encodeStd (val div 4096 mod 64),
          CHR ''='', CHR ''=''])"
| "EncodeToString [] = []"

subsection \<open>\<open>net/textproto\<close>: MIME headers\<close>

text \<open>
  A \<open>MIMEHeader\<close> maps a key to a list of values. \<open>Set\<close> stores a single value under
  the canonical form of the key: when every byte of the key is a header token byte, the
  first letter and every letter after a hyphen are upper case and the other letters
  lower case; a key with any other byte is left as it is.
\<close>

type_synonym MIMEHeader = "string \<rightharpoonup> string list"

definition isLower :: "char \<Rightarrow> bool" where
  "isLower c = (c \<in> set ''abcdefghijklmnopqrstuvwxyz'')"

definition isUpper :: "char \<Rightarrow> bool" where
  "isUpper c = (c \<in> set ''ABCDEFGHIJKLMNOPQRSTUVWXYZ'')"

definition isDigit :: "char \<Rightarrow> bool" where
  "isDigit c = (c \<in> set ''0123456789'')"

definition toUpper :: "char \<Rightarrow> char" where
  "toUpper c =
     (case map_of (zip ''abcdefghijklmnopqrstuvwxyz'' ''ABCDEFGHIJKLMNOPQRSTUVWXYZ'') c of
        Some u \<Rightarrow> u | None \<Rightarrow> c)"

definition toLower :: "char \<Rightarrow> char" where
  "toLower c =
     (case map_of (zip ''ABCDEFGHIJKLMNOPQRSTUVWXYZ'' ''abcdefghijklmnopqrstuvwxyz'') c of
        Some l \<Rightarrow> l | None \<Rightarrow> c)"

definition validHeaderFieldByte :: "char \<Rightarrow> bool" where
  "validHeaderFieldByte c =
     (isDigit c \<or> isLower c \<or> isUpper c
      \<or> c \<in> set ''!#$%&*+-.^_|~'' \<or> c = CHR 0x27 \<or> c = CHR 0x60)"

fun canonicalBytes :: "bool \<Rightarrow> string \<Rightarrow> string" where
  "canonicalBytes upper [] = []"
| "canonicalBytes upper (c # cs) =
     (let c' = (if upper \<and> isLower c then toUpper c
                else if \<not> upper \<and> isUpper c then toLower c
                else c)
      in c' # canonicalBytes (c' = CHR ''-'') cs)"

definition CanonicalMIMEHeaderKey :: "string \<Rightarrow> string" where
  "CanonicalMIMEHeaderKey s =
     (if list_all validHeaderFieldByte s then canonicalBytes True s else s)"

definition MIMEHeader_Set :: "MIMEHeader \<Rightarrow> string \<Rightarrow> string \<Rightarrow> MIMEHeader" where
  "MIMEHeader_Set h key val = h(CanonicalMIMEHeaderKey key \<mapsto> [val])"

subsection \<open>\<open>mime/multipart\<close>: the writer\<close>

text \<open>
  The writer appends to the buffer it was created on. \<open>CreatePart\<close> writes the boundary
  line (after a line break when a part came before), the part's header lines in the
  order of their keys, and an empty line. Writing to a \<open>bytes.Buffer\<close> does not fail,
  so \<open>CreatePart\<close> returns no error here; its result keeps the error alternative of the
  Go signature.
\<close>

record Writer =
  buffer :: string
  boundary :: string
  lastpart :: bool

definition NewWriter :: "string \<Rightarrow> string \<Rightarrow> Writer" where
  "NewWriter buf bnd = \<lparr>buffer = buf, boundary = bnd, lastpart = False\<rparr>"

definition header_lines :: "string \<Rightarrow> string list \<Rightarrow> string" where
  "header_lines key vals = concat (map (\<lambda>v. key @ '': '' @ v @ CRLF) vals)"

definition CreatePart :: "Writer \<Rightarrow> (string \<times> string list) list \<Rightarrow> error + Writer" where
  "CreatePart mw header =
     Inr (mw\<lparr>buffer := buffer mw
                 @ (if lastpart mw then CRLF @ ''--'' @ boundary mw @ CRLF
                    else ''--'' @ boundary mw @ CRLF)
                 @ concat (map (\<lambda>(k, vs). header_lines k vs) (sort_key fst header))
                 @ CRLF,
             lastpart := True\<rparr>)"

text \<open>Appending bytes to the buffer, through a part or directly.\<close>

definition part_Write :: "Writer \<Rightarrow> string \<Rightarrow> Writer" where
  "part_Write mw p = mw\<lparr>buffer := buffer mw @ p\<rparr>"

definition Writer_Close :: "Writer \<Rightarrow> Writer" where
  "Writer_Close mw = mw\<lparr>buffer := buffer mw @ CRLF @ ''--'' @ boundary mw @ ''--'' @ CRLF\<rparr>"

subsection \<open>smtp.go\<close>

record PlainAuth =
  identity :: string
  username :: string
  password :: string
  host :: string

record SMTPClient =
  Host :: string
  Port :: int
  Username :: string
  Password :: string
  Auth :: PlainAuth

definition NewSMTPClient :: "string \<Rightarrow> SMTPClient" where
  "NewSMTPClient apiKey =
     (let host = ''mail.shoutbox.net''
      in \<lparr>Host = host, Port = 587, Username = ''shoutbox'', Password = apiKey,
          Auth = \<lparr>identity = [], username = ''shoutbox'', password = apiKey,
                   host = host\<rparr>\<rparr>)"

record EmailMessage =
  From :: string
  To :: "string list"
  Subject :: string
  HTML :: string
  Name :: string
  ReplyTo :: string
  Attachments :: "Attachment list"
  Headers :: "string \<rightharpoonup> string"

text \<open>
  What one call of \<open>SendEmail\<close> gets from outside: the boundary the multipart writer
  draws at random, the order in which \<open>range msg.Headers\<close> visits the keys of the
  caller's map, the order in which \<open>range headers\<close> visits the keys of the assembled
  header map (Go leaves both orders open), the table of printable code points, and the
  mail relay (\<open>smtp.SendMail\<close>: address, authentication, sender, recipients, message).
\<close>

record smtp_run =
  Boundary :: string
  RangeCustom :: "string list"
  RangeHeaders :: "string list"
  PrintTable :: "nat \<Rightarrow> bool"
  SendMail :: "string \<Rightarrow> PlainAuth \<Rightarrow> string \<Rightarrow> string list \<Rightarrow> string \<Rightarrow> error option"

text \<open>An order of iteration over a map visits every key once.\<close>

definition range_of :: "('k \<rightharpoonup> 'v) \<Rightarrow> 'k list \<Rightarrow> bool" where
  "range_of m ks = (distinct ks \<and> set ks = dom m)"

definition formatAddress :: "string \<Rightarrow> string \<Rightarrow> string" where
  "formatAddress email name =
     (if name = [] then email else name @ '' <'' @ email @ ''>'')"

text \<open>The header map after the standard headers and the caller's headers are set.\<close>

definition standard_headers :: "string \<Rightarrow> EmailMessage \<Rightarrow> MIMEHeader" where
  "standard_headers bnd msg =
     (let headers = Map.empty;
          headers = MIMEHeader_Set headers ''From'' (formatAddress (From msg) (Name msg));
          headers = MIMEHeader_Set headers ''To'' (Join (To msg) '', '');
          headers = MIMEHeader_Set headers ''Subject'' (Subject msg);
          headers = MIMEHeader_Set headers ''MIME-Version'' ''1.0'';
          headers = MIMEHeader_Set headers ''Content-Type''
                      (''multipart/mixed; boundary='' @ bnd)
      in if ReplyTo msg \<noteq> [] then MIMEHeader_Set headers ''Reply-To'' (ReplyTo msg)
         else headers)"

fun set_custom :: "(string \<rightharpoonup> string) \<Rightarrow> MIMEHeader \<Rightarrow> string list \<Rightarrow> MIMEHeader" where
  "set_custom custom headers [] = headers"
| "set_custom custom headers (key # keys) =
     (case custom key of
        Some val \<Rightarrow> set_custom custom (MIMEHeader_Set headers key val) keys
      | None \<Rightarrow> set_custom custom headers keys)"

definition message_headers :: "smtp_run \<Rightarrow> EmailMessage \<Rightarrow> MIMEHeader" where
  "message_headers run msg =
     set_custom (Headers msg) (standard_headers (Boundary run) msg) (RangeCustom run)"

text \<open>The header block: one line for every value of every key, in the order visited.\<close>

fun write_headers :: "MIMEHeader \<Rightarrow> string list \<Rightarrow> string" where
  "write_headers headers [] = []"
| "write_headers headers (key # keys) =
     (case headers key of
        Some vals \<Rightarrow> header_lines key vals @ write_headers headers keys
      | None \<Rightarrow> write_headers headers keys)"

definition header_block :: "smtp_run \<Rightarrow> EmailMessage \<Rightarrow> string" where
  "header_block run msg = write_headers (message_headers run msg) (RangeHeaders run)"

definition html_part_header :: "(string \<times> string list) list" where
  "html_part_header =
     [(''Content-Type'', [''text/html; charset=UTF-8'']),
      (''Content-Transfer-Encoding'', [''quoted-printable''])]"

definition attachment_part_header ::
    "(nat \<Rightarrow> bool) \<Rightarrow> Attachment \<Rightarrow> (string \<times> string list) list" where
  "attachment_part_header wide attachment =
     [(''Content-Type'',
         [ContentType attachment @ ''; name='' @ Quote wide (Filename attachment)]),
      (''Content-Disposition'',
         [''attachment; filename='' @ Quote wide (Filename attachment)]),
      (''Content-Transfer-Encoding'', [''base64''])]"

fun add_attachments :: "(nat \<Rightarrow> bool) \<Rightarrow> Writer \<Rightarrow> Attachment list \<Rightarrow> error + Writer" where
  "add_attachments wide mw [] = Inr mw"
| "add_attachments wide mw (attachment # attachments) =
     (case CreatePart mw (attachment_part_header wide attachment) of
        Inl err \<Rightarrow> Inl (''error creating attachment part: '' @ err)
      | Inr mw' \<Rightarrow>
          add_attachments wide (part_Write mw' (EncodeToString (Content attachment)))
            attachments)"

text \<open>
  The message as it stands in the buffer when it is handed to the relay: the header
  lines and an empty line, written to the buffer directly, then what the multipart
  writer appends to the same buffer.
\<close>

definition assemble :: "smtp_run \<Rightarrow> EmailMessage \<Rightarrow> error + string" where
  "assemble run msg =
     (let writer = NewWriter [] (Boundary run);
          writer = part_Write writer (header_block run msg);
          writer = part_Write writer CRLF
      in case CreatePart writer html_part_header of
           Inl err \<Rightarrow> Inl (''error creating HTML part: '' @ err)
         | Inr writer \<Rightarrow>
             (case add_attachments (PrintTable run) (part_Write writer (HTML msg))
                     (Attachments msg) of
                Inl err \<Rightarrow> Inl err
              | Inr writer \<Rightarrow> Inr (buffer (Writer_Close writer))))"

definition SMTPClient_SendEmail :: "smtp_run \<Rightarrow> SMTPClient \<Rightarrow> EmailMessage \<Rightarrow> error option" where
  "SMTPClient_SendEmail run c msg =
     (case assemble run msg of
        Inl err \<Rightarrow> Some err
      | Inr document \<Rightarrow>
          (case SendMail run (Host c @ '':'' @ Itoa (Port c)) (Auth c) (From msg) (To msg)
                  document of
             Some err \<Rightarrow> Some (''error sending email: '' @ err)
           | None \<Rightarrow> None))"

subsection \<open>Reading the assembled message\<close>

text \<open>
  The fields of a header block, in the order written: one for every value of every key
  visited.
\<close>

fun header_fields :: "MIMEHeader \<Rightarrow> string list \<Rightarrow> (string \<times> string) list" where
  "header_fields headers [] = []"
| "header_fields headers (key # keys) =
     (case headers key of
        Some vals \<Rightarrow> map (Pair key) vals @ header_fields headers keys
      | None \<Rightarrow> header_fields headers keys)"

definition field_line :: "string \<times> string \<Rightarrow> string" where
  "field_line f = fst f @ '': '' @ snd f @ CRLF"

text \<open>
  A part as it stands in a multipart document: the boundary line, the header fields, an
  empty line, the content. Parts are separated by a line break, and the document ends
  with the closing boundary line.
\<close>

definition mime_part :: "string \<Rightarrow> (string \<times> string) list \<Rightarrow> string \<Rightarrow> string" where
  "mime_part bnd flds content =
     ''--'' @ bnd @ CRLF @ concat (map field_line flds) @ CRLF @ content"

definition closing_line :: "string \<Rightarrow> string" where
  "closing_line bnd = CRLF @ ''--'' @ bnd @ ''--'' @ CRLF"

definition html_part :: "string \<Rightarrow> string \<Rightarrow> string" where
  "html_part bnd html =
     mime_part bnd
       [(''Content-Transfer-Encoding'', ''quoted-printable''),
        (''Content-Type'', ''text/html; charset=UTF-8'')]
       html"

definition attachment_part :: "(nat \<Rightarrow> bool) \<Rightarrow> string \<Rightarrow> Attachment \<Rightarrow> string" where
  "attachment_part wide bnd a =
     mime_part bnd
       [(''Content-Disposition'', ''attachment; filename='' @ Quote wide (Filename a)),
        (''Content-Transfer-Encoding'', ''base64''),
        (''Content-Type'', ContentType a @ ''; name='' @ Quote wide (Filename a))]
       (EncodeToString (Content a))"


section \<open>The REST transport (client.go)\<close>

subsection \<open>JSON documents\<close>

text \<open>
  \<open>encoding/json\<close> is modelled on documents, not on their text: what \<open>json.Marshal\<close>
  emits for a value and what the decoder stores into a value are given as functions
  between Go values and documents. The text of a document on the wire, and the reading
  of the first JSON value from a stream of bytes, are parameters of the model
  (\<open>json_codec\<close> below). A number keeps its literal.
\<close>

datatype json =
    JNull
  | JBool bool
  | JNumber string
  | JString string
  | JArray "json list"
  | JObject "(string \<times> json) list"

datatype json_error = SyntaxError | UnexpectedEOF | UnmarshalTypeError

text \<open>
  A string is emitted coerced to valid UTF-8: every byte that does not start a valid
  encoding is replaced by U+FFFD.
\<close>

definition replacement :: string where
  "replacement = [CHR 0xEF, CHR 0xBF, CHR 0xBD]"

fun ToValidUTF8 :: "string \<Rightarrow> string" where
  "ToValidUTF8 [] = []"
| "ToValidUTF8 (c # cs) =
     (if byte c < 0x80 then c # ToValidUTF8 cs
      else
        let (r, width) = DecodeRune (c # cs) in
        if width = 1 \<and> r = RuneError then replacement @ ToValidUTF8 cs
        else take width (c # cs) @ ToValidUTF8 (drop (width - 1) cs))"

definition ValidString :: "string \<Rightarrow> bool" where
  "ValidString s = (ToValidUTF8 s = s)"

text \<open>
  The decoder matches an object key with a field name exactly or, failing that, under
  case folding: ASCII letters regardless of case, with U+017F (long s) for S and U+212A
  (Kelvin sign) for K. The names it is compared with here are ASCII, so other bytes are
  left as they are.
\<close>

fun foldName :: "string \<Rightarrow> string" where
  "foldName [] = []"
| "foldName (c # cs) =
     (if c = CHR 0xC5 \<and> take 1 cs = [CHR 0xBF] then CHR ''S'' # foldName (drop 1 cs)
      else if c = CHR 0xE2 \<and> take 2 cs = [CHR 0x84, CHR 0xAA]
        then CHR ''K'' # foldName (drop 2 cs)
      else toUpper c # foldName cs)"

definition matches :: "string \<Rightarrow> string \<Rightarrow> bool" where
  "matches key name = (key = name \<or> foldName key = foldName name)"

text \<open>
  Storing a JSON value into a Go string: a string is stored, \<open>null\<close> leaves the value as
  it is, anything else is a type error (which the decoder records, going on with the
  rest of the document).
\<close>

fun store_string :: "json \<Rightarrow> string \<Rightarrow> json_error option \<times> string" where
  "store_string (JString s) cur = (None, s)"
| "store_string JNull cur = (None, cur)"
| "store_string v cur = (Some UnmarshalTypeError, cur)"

text \<open>The decoder returns the first error it recorded.\<close>

definition first_error :: "json_error option \<Rightarrow> json_error option \<Rightarrow> json_error option" where
  "first_error saved err = (case saved of Some e \<Rightarrow> Some e | None \<Rightarrow> err)"

subsection \<open>The request\<close>

text \<open>
  \<open>json.Marshal\<close> of a request, by the struct tags: the four plain fields always, the
  fields tagged \<open>omitempty\<close> when they are not empty, the header map as an object with
  its keys in increasing order. It returns no error for these field types; the result
  keeps the error alternative of the Go signature.
\<close>

definition marshal_map :: "(string \<rightharpoonup> string) \<Rightarrow> json" where
  "marshal_map m =
     JObject (map (\<lambda>k. (ToValidUTF8 k, JString (ToValidUTF8 (the (m k)))))
                (sorted_list_of_set (dom m)))"

definition marshal_request :: "EmailRequest \<Rightarrow> json" where
  "marshal_request req =
     JObject
       ([(''from'', JString (ToValidUTF8 (EmailRequest.From req))),
         (''to'', JString (ToValidUTF8 (EmailRequest.To req))),
         (''subject'', JString (ToValidUTF8 (EmailRequest.Subject req))),
         (''html'', JString (ToValidUTF8 (EmailRequest.HTML req)))]
        @ (if EmailRequest.Name req = [] then []
           else [(''name'', JString (ToValidUTF8 (EmailRequest.Name req)))])
        @ (if EmailRequest.ReplyTo req = [] then []
           else [(''reply_to'', JString (ToValidUTF8 (EmailRequest.ReplyTo req)))])
        @ (if dom (EmailRequest.Headers req) = {} then []
           else [(''headers'', marshal_map (EmailRequest.Headers req))]))"

definition Marshal :: "EmailRequest \<Rightarrow> error + json" where
  "Marshal req = Inr (marshal_request req)"

text \<open>
  \<open>json.Unmarshal\<close> into a request, by the same tags. The members of an object are
  stored in order, so a later member for the same field wins. A member of the header
  object stores its value into an empty string, which is then put into the map.
\<close>

fun unmarshal_map ::
    "(string \<times> json) list \<Rightarrow> json_error option \<times> (string \<rightharpoonup> string)
     \<Rightarrow> json_error option \<times> (string \<rightharpoonup> string)" where
  "unmarshal_map [] st = st"
| "unmarshal_map ((k, v) # kvs) (saved, m) =
     (let (err, s) = store_string v [] in
      unmarshal_map kvs (first_error saved err, m(k \<mapsto> s)))"

fun store_map ::
    "json \<Rightarrow> (string \<rightharpoonup> string) \<Rightarrow> json_error option \<times> (string \<rightharpoonup> string)" where
  "store_map (JObject kvs) cur = unmarshal_map kvs (None, cur)"
| "store_map JNull cur = (None, Map.empty)"
| "store_map v cur = (Some UnmarshalTypeError, cur)"

definition store_member ::
    "string \<Rightarrow> json \<Rightarrow> EmailRequest \<Rightarrow> json_error option \<times> EmailRequest" where
  "store_member key v req =
     (if matches key ''from'' then
        (let (err, s) = store_string v (EmailRequest.From req)
         in (err, req\<lparr>EmailRequest.From := s\<rparr>))
      else if matches key ''to'' then
        (let (err, s) = store_string v (EmailRequest.To req)
         in (err, req\<lparr>EmailRequest.To := s\<rparr>))
      else if matches key ''subject'' then
        (let (err, s) = store_string v (EmailRequest.Subject req)
         in (err, req\<lparr>EmailRequest.Subject := s\<rparr>))
      else if matches key ''html'' then
        (let (err, s) = store_string v (EmailRequest.HTML req)
         in (err, req\<lparr>EmailRequest.HTML := s\<rparr>))
      else if matches key ''name'' then
        (let (err, s) = store_string v (EmailRequest.Name req)
         in (err, req\<lparr>EmailRequest.Name := s\<rparr>))
      else if matches key ''reply_to'' then
        (let (err, s) = store_string v (EmailRequest.ReplyTo req)
         in (err, req\<lparr>EmailRequest.ReplyTo := s\<rparr>))
      else if matches key ''headers'' then
        (let (err, m) = store_map v (EmailRequest.Headers req)
         in (err, req\<lparr>EmailRequest.Headers := m\<rparr>))
      else (None, req))"

fun unmarshal_members ::
    "(string \<times> json) list \<Rightarrow> json_error option \<times> EmailRequest
     \<Rightarrow> json_error option \<times> EmailRequest" where
  "unmarshal_members [] st = st"
| "unmarshal_members ((k, v) # kvs) (saved, req) =
     (let (err, req') = store_member k v req in
      unmarshal_members kvs (first_error saved err, req'))"

definition zero_request :: EmailRequest where
  "zero_request =
     \<lparr>EmailRequest.From = [], EmailRequest.To = [], EmailRequest.Subject = [],
      EmailRequest.HTML = [], EmailRequest.Name = [], EmailRequest.ReplyTo = [],
      EmailRequest.Headers = Map.empty\<rparr>"

text \<open>The error returned, and the value the request then holds.\<close>

fun Unmarshal :: "json \<Rightarrow> EmailRequest \<Rightarrow> json_error option \<times> EmailRequest" where
  "Unmarshal (JObject kvs) req = unmarshal_members kvs (None, req)"
| "Unmarshal JNull req = (None, req)"
| "Unmarshal v req = (Some UnmarshalTypeError, req)"

subsection \<open>The error body of a response\<close>

text \<open>
  Decoding into the anonymous struct with the single field \<open>Error\<close>, tagged \<open>error\<close>,
  starting from the empty string.
\<close>

fun error_members ::
    "(string \<times> json) list \<Rightarrow> json_error option \<times> string \<Rightarrow> json_error option \<times> string" where
  "error_members [] st = st"
| "error_members ((k, v) # kvs) (saved, cur) =
     (if matches k ''error'' then
        (let (err, s) = store_string v cur in
         error_members kvs (first_error saved err, s))
      else error_members kvs (saved, cur))"

fun unmarshal_errResp :: "json \<Rightarrow> json_error option \<times> string" where
  "unmarshal_errResp (JObject kvs) = error_members kvs (None, [])"
| "unmarshal_errResp JNull = (None, [])"
| "unmarshal_errResp v = (Some UnmarshalTypeError, [])"

subsection \<open>HTTP\<close>

datatype Context = Background | Canceled

record Request =
  Ctx :: Context
  Method :: string
  URL :: string
  Header :: MIMEHeader
  Body :: string

record Response =
  StatusCode :: int
  RespBody :: string

text \<open>
  What the client gets from outside: the text of a JSON document as \<open>encoding/json\<close>
  prints it, the first JSON value the decoder reads from a stream of bytes (or the
  error of reading it), the parsing of the URL, and the HTTP round trip.
\<close>

record rest_run =
  JSONText :: "json \<Rightarrow> string"
  ReadValue :: "string \<Rightarrow> json_error + json"
  ParseURL :: "string \<Rightarrow> error option"
  Do :: "Request \<Rightarrow> error + Response"

definition NewRequestWithContext ::
    "rest_run \<Rightarrow> Context option \<Rightarrow> string \<Rightarrow> string \<Rightarrow> string \<Rightarrow> error + Request" where
  "NewRequestWithContext run ctx method url body =
     (case ctx of
        None \<Rightarrow> Inl ''net/http: nil Context''
      | Some ctx \<Rightarrow>
          (case ParseURL run url of
             Some err \<Rightarrow> Inl err
           | None \<Rightarrow>
               Inr \<lparr>Ctx = ctx, Method = method, URL = url, Header = Map.empty,
                     Body = body\<rparr>))"

definition Header_Set :: "Request \<Rightarrow> string \<Rightarrow> string \<Rightarrow> Request" where
  "Header_Set r key val = r\<lparr>Header := MIMEHeader_Set (Header r) key val\<rparr>"

text \<open>\<open>Decode(&errResp)\<close>: the error, or the field \<open>Error\<close> after decoding.\<close>

definition Decode_errResp :: "rest_run \<Rightarrow> string \<Rightarrow> json_error + string" where
  "Decode_errResp run body =
     (case ReadValue run body of
        Inl err \<Rightarrow> Inl err
      | Inr v \<Rightarrow>
          (case unmarshal_errResp v of
             (Some err, errResp) \<Rightarrow> Inl err
           | (None, errResp) \<Rightarrow> Inr errResp))"

subsection \<open>client.go\<close>

record Client =
  apiKey :: string
  baseURL :: string

definition NewClient :: "string \<Rightarrow> Client" where
  "NewClient key = \<lparr>apiKey = key, baseURL = ''https://api.shoutbox.net''\<rparr>"

definition StatusOK :: int where
  "StatusOK = 200"

text \<open>The request as it is handed to the HTTP client, or the error of building it.\<close>

definition build_request ::
    "rest_run \<Rightarrow> Client \<Rightarrow> Context option \<Rightarrow> EmailRequest \<Rightarrow> error + Request" where
  "build_request run c ctx req =
     (case Marshal req of
        Inl err \<Rightarrow> Inl (''error marshaling request: '' @ err)
      | Inr jsonData \<Rightarrow>
          (case NewRequestWithContext run ctx ''POST'' (baseURL c @ ''/send'')
                  (JSONText run jsonData) of
             Inl err \<Rightarrow> Inl (''error creating request: '' @ err)
           | Inr httpReq \<Rightarrow>
               (let httpReq = Header_Set httpReq ''Authorization'' (''Bearer '' @ apiKey c);
                    httpReq = Header_Set httpReq ''Content-Type'' ''application/json''
                in Inr httpReq)))"

definition Client_SendEmail ::
    "rest_run \<Rightarrow> Client \<Rightarrow> Context option \<Rightarrow> EmailRequest \<Rightarrow> error option" where
  "Client_SendEmail run c ctx req =
     (case build_request run c ctx req of
        Inl err \<Rightarrow> Some err
      | Inr httpReq \<Rightarrow>
          (case Do run httpReq of
             Inl err \<Rightarrow> Some (''error sending request: '' @ err)
           | Inr resp \<Rightarrow>
               if StatusCode resp \<noteq> StatusOK then
                 (case Decode_errResp run (RespBody resp) of
                    Inl err \<Rightarrow>
                      Some (''error response with status '' @ Itoa (StatusCode resp))
                  | Inr errResp \<Rightarrow> Some (''api error: '' @ errResp))
               else None))"

subsection \<open>Reading a document\<close>

text \<open>The members of an object, in order; other documents have none.\<close>

fun members :: "json \<Rightarrow> (string \<times> json) list" where
  "members (JObject kvs) = kvs"
| "members v = []"

subsection \<open>Sample messages and runs\<close>

text \<open>
  A relay that accepts every message, and three messages, each with the orders of
  iteration of one run: one with two attachments, one with a custom header written in
  lower case, one whose custom headers include a reply address.
\<close>

definition accepting_relay ::
    "string \<Rightarrow> PlainAuth \<Rightarrow> string \<Rightarrow> string list \<Rightarrow> string \<Rightarrow> error option" where
  "accepting_relay addr auth sender rcpts document = None"

definition att_report :: Attachment where
  "att_report =
     \<lparr>Filename = ''report.pdf'', Content = ''%PDF-1.4'', ContentType = ''application/pdf''\<rparr>"

definition att_notes :: Attachment where
  "att_notes =
     \<lparr>Filename = ''notes.txt'', Content = ''hello'', ContentType = ''text/plain''\<rparr>"

definition msg_attach :: EmailMessage where
  "msg_attach =
     \<lparr>From = ''sender@example.com'', To = [''rcpt@example.com''], Subject = ''Files'',
      HTML = ''<p>caf'' @ [CHR 0xC3, CHR 0xA9] @ '' = 2 files</p>'', Name = [], ReplyTo = [],
      Attachments = [att_report, att_notes], Headers = Map.empty\<rparr>"

definition run_attach :: smtp_run where
  "run_attach =
     \<lparr>Boundary = ''4f1d2c'', RangeCustom = [],
      RangeHeaders = [''Subject'', ''From'', ''Content-Type'', ''To'', ''Mime-Version''],
      PrintTable = (\<lambda>r. False), SendMail = accepting_relay\<rparr>"

definition msg_custom :: EmailMessage where
  "msg_custom =
     \<lparr>From = ''sender@example.com'', To = [''rcpt@example.com''], Subject = ''Hello'',
      HTML = ''<p>Hi</p>'', Name = ''Sender'', ReplyTo = [],
      Attachments = [], Headers = [''x-test-header'' \<mapsto> ''test-value'']\<rparr>"

definition run_custom :: smtp_run where
  "run_custom =
     \<lparr>Boundary = ''4f1d2c'', RangeCustom = [''x-test-header''],
      RangeHeaders = [''X-Test-Header'', ''From'', ''To'', ''Subject'', ''Mime-Version'',
                      ''Content-Type''],
      PrintTable = (\<lambda>r. False), SendMail = accepting_relay\<rparr>"






subsection \<open>Sample requests and responses\<close>

definition req_basic :: EmailRequest where
  "req_basic =
     \<lparr>EmailRequest.From = ''sender@example.com'', EmailRequest.To = ''rcpt@example.com'',
      EmailRequest.Subject = ''Test Email'', EmailRequest.HTML = ''Test'',
      EmailRequest.Name = [], EmailRequest.ReplyTo = [],
      EmailRequest.Headers = Map.empty\<rparr>"

definition req_full :: EmailRequest where
  "req_full =
     req_basic\<lparr>EmailRequest.Name := ''Test Sender'',
               EmailRequest.ReplyTo := ''reply@example.com'',
               EmailRequest.Headers := [''X-Test-Header'' \<mapsto> ''test-value'']\<rparr>"

text \<open>A request whose subject is a single byte that is not valid UTF-8.\<close>

definition req_invalid :: EmailRequest where
  "req_invalid = req_basic\<lparr>EmailRequest.Subject := [CHR 0xFF]\<rparr>"

text \<open>
  A server that answers every request with the given response. The text of the sample
  request and the documents read from three response bodies are as \<open>encoding/json\<close>
  gives them: an object with an error message, the empty object, and a body that is
  not JSON.
\<close>

definition sample_text :: "json \<Rightarrow> string" where
  "sample_text doc =
     ''{\"from\":\"sender@example.com\",\"to\":\"rcpt@example.com\",''
     @ ''\"subject\":\"Test Email\",\"html\":\"Test\"}''"

definition sample_read :: "string \<Rightarrow> json_error + json" where
  "sample_read body =
     (if body = ''{\"error\":\"rate limited\"}''
        then Inr (JObject [(''error'', JString ''rate limited'')])
      else if body = ''{}'' then Inr (JObject [])
      else Inl SyntaxError)"

definition server :: "Response \<Rightarrow> rest_run" where
  "server resp =
     \<lparr>JSONText = sample_text, ReadValue = sample_read, ParseURL = (\<lambda>url. None),
      Do = (\<lambda>httpReq. Inr resp)\<rparr>"

definition resp_rate_limited :: Response where
  "resp_rate_limited = \<lparr>StatusCode = 429, RespBody = ''{\"error\":\"rate limited\"}''\<rparr>"

definition resp_bad_gateway :: Response where
  "resp_bad_gateway = \<lparr>StatusCode = 502, RespBody = ''<html>Bad Gateway</html>''\<rparr>"

definition resp_empty_object :: Response where
  "resp_empty_object = \<lparr>StatusCode = 500, RespBody = ''{}''\<rparr>"

definition resp_ok :: Response where
  "resp_ok = \<lparr>StatusCode = 200, RespBody = ''{\"status\":\"sent\"}''\<rparr>"

section \<open>Properties of the helpers\<close>

lemma Contains_iff: "Contains s sub \<longleftrightarrow> (\<exists>ps ss. s = ps @ sub @ ss)"
proof (induction s)
  case Nil
  then show ?case by auto
next
  case (Cons c cs)
  show ?case
  proof
    assume "Contains (c # cs) sub"
    then consider "prefix sub (c # cs)" | "Contains cs sub" by auto
    then show "\<exists>ps ss. c # cs = ps @ sub @ ss"
    proof cases
      case 1
      then obtain ss where "c # cs = sub @ ss" by (auto simp: prefix_def)
      then have "c # cs = [] @ sub @ ss" by simp
      then show ?thesis by blast
    next
      case 2
      with Cons.IH obtain ps ss where "cs = ps @ sub @ ss" by blast
      then have "c # cs = (c # ps) @ sub @ ss" by simp
      then show ?thesis by blast
    qed
  next
    assume "\<exists>ps ss. c # cs = ps @ sub @ ss"
    then obtain ps ss where eq: "c # cs = ps @ sub @ ss" by blast
    show "Contains (c # cs) sub"
    proof (cases ps)
      case Nil
      with eq have "prefix sub (c # cs)" by (simp add: prefix_def)
      then show ?thesis by simp
    next
      case (Cons p ps')
      with eq have "cs = ps' @ sub @ ss" by simp
      with Cons.IH have "Contains cs sub" by blast
      then show ?thesis by simp
    qed
  qed
qed

lemma Contains_char: "Contains s [c] \<longleftrightarrow> c \<in> set s"
  by (induction s) (auto simp: prefix_def)

lemma Contains_append_right: "Contains (ps @ sub) sub"
  unfolding Contains_iff by (rule exI [of _ ps], rule exI [of _ "[]"]) simp

lemma ValidateEmail_None: "ValidateEmail e = None \<longleftrightarrow> CHR ''@'' \<in> set e"
  by (simp add: ValidateEmail_def Contains_char)

lemma ValidateEmailList_None:
  "ValidateEmailList es = None \<longleftrightarrow> (\<forall>e \<in> set es. ValidateEmail e = None)"
  by (induction es) (auto split: option.splits)

lemma ValidateEmailList_first_bad:
  assumes "\<forall>e \<in> set pre. ValidateEmail e = None"
  shows "ValidateEmailList (pre @ bad # post) =
         (case ValidateEmail bad of Some err \<Rightarrow> Some err | None \<Rightarrow> ValidateEmailList post)"
  using assms by (induction pre) auto

text \<open>
  C6. \<open>ValidateEmailList\<close> succeeds exactly when every member of the list passes
  \<open>ValidateEmail\<close> on its own, and a member passes exactly when it contains the
  character @. The list of a\<open>@\<close>b.com and c\<open>@\<close>d.com succeeds; the list of a\<open>@\<close>b.com and
  bad fails.
\<close>

theorem ValidateEmailList_iff_all_valid:
  "(ValidateEmailList emails = None \<longleftrightarrow> (\<forall>e \<in> set emails. ValidateEmail e = None))
   \<and> (\<forall>e. ValidateEmail e = None \<longleftrightarrow> CHR ''@'' \<in> set e)
   \<and> (ValidateEmailList emails = None \<longleftrightarrow> (\<forall>e \<in> set emails. CHR ''@'' \<in> set e))
   \<and> ValidateEmailList [''a@b.com'', ''c@d.com''] = None
   \<and> ValidateEmailList [''a@b.com'', ''bad''] \<noteq> None"
proof -
  have "ValidateEmailList [''a@b.com'', ''c@d.com''] = None"
    unfolding ValidateEmailList_None by (simp add: ValidateEmail_None)
  moreover have "ValidateEmailList [''a@b.com'', ''bad''] \<noteq> None"
    unfolding ValidateEmailList_None by (simp add: ValidateEmail_None)
  moreover have "ValidateEmailList emails = None \<longleftrightarrow> (\<forall>e \<in> set emails. CHR ''@'' \<in> set e)"
    unfolding ValidateEmailList_None by (simp add: ValidateEmail_None)
  ultimately show ?thesis
    using ValidateEmailList_None [of emails] by (simp add: ValidateEmail_None)
qed

theorem ValidateEmailList_iff_all_valid_witness:
  "CHR ''@'' \<in> set ''test1@example.com'' \<and> CHR ''@'' \<in> set ''test2@example.com''
   \<and> ValidateEmailList [''test1@example.com'', ''test2@example.com''] = None
   \<and> CHR ''@'' \<notin> set ''invalid-email''
   \<and> ValidateEmailList [''test1@example.com'', ''invalid-email''] \<noteq> None"
  using ValidateEmailList_iff_all_valid [of "[''test1@example.com'', ''test2@example.com'']"]
    ValidateEmailList_iff_all_valid [of "[''test1@example.com'', ''invalid-email'']"]
  by (simp add: ValidateEmail_None)

text \<open>
  C9. The empty list succeeds. When a list has a member without @, and every member
  before it has one, the failure returned is the one \<open>ValidateEmail\<close> gives for that
  first member, and its message contains the member's text.
\<close>

theorem ValidateEmailList_first_failure:
  "ValidateEmailList [] = None
   \<and> ((\<forall>e \<in> set pre. CHR ''@'' \<in> set e) \<and> CHR ''@'' \<notin> set bad \<longrightarrow>
        ValidateEmailList (pre @ bad # post) = ValidateEmail bad
        \<and> ValidateEmailList (pre @ bad # post) = Some (''invalid email address: '' @ bad)
        \<and> (\<exists>msg. ValidateEmailList (pre @ bad # post) = Some msg \<and> Contains msg bad))"
proof (intro conjI impI)
  show "ValidateEmailList [] = None" by simp
next
  assume h: "(\<forall>e \<in> set pre. CHR ''@'' \<in> set e) \<and> CHR ''@'' \<notin> set bad"
  then have vb: "ValidateEmail bad = Some (''invalid email address: '' @ bad)"
    by (simp add: ValidateEmail_def Contains_char)
  from h have "\<forall>e \<in> set pre. ValidateEmail e = None"
    by (simp add: ValidateEmail_None)
  then show eq: "ValidateEmailList (pre @ bad # post) = ValidateEmail bad"
    by (simp add: ValidateEmailList_first_bad vb)
  from eq vb show eq2:
    "ValidateEmailList (pre @ bad # post) = Some (''invalid email address: '' @ bad)"
    by (rule trans)
  have "Contains (''invalid email address: '' @ bad) bad"
    by (rule Contains_append_right)
  with eq2 show "\<exists>msg. ValidateEmailList (pre @ bad # post) = Some msg \<and> Contains msg bad"
    by blast
qed

theorem ValidateEmailList_first_failure_witness:
  "CHR ''@'' \<in> set ''a@b.com'' \<and> CHR ''@'' \<notin> set ''bad''
   \<and> ValidateEmailList [''a@b.com'', ''bad'', ''worse'', ''c@d.com'']
       = Some ''invalid email address: bad''"
  using ValidateEmailList_first_failure [of "[''a@b.com'']" "''bad''" "[''worse'', ''c@d.com'']"]
  by (simp add: ValidateEmail_def)

subsection \<open>Paths\<close>

lemma last_element_no_separator: "CHR ''/'' \<notin> set (last_element p)"
proof
  assume "CHR ''/'' \<in> set (last_element p)"
  then have "CHR ''/'' \<in> set (takeWhile (\<lambda>c. \<not> IsPathSeparator c) (rev p))"
    by (simp add: last_element_def)
  then have "\<not> IsPathSeparator (CHR ''/'')"
    by (rule set_takeWhileD [THEN conjunct2])
  then show False by (simp add: IsPathSeparator_def)
qed

lemma strip_trailing_slashes_id:
  assumes "p \<noteq> []" and "last p \<noteq> CHR ''/''"
  shows "strip_trailing_slashes p = p"
proof -
  from assms have "rev p \<noteq> []" and "hd (rev p) \<noteq> CHR ''/''"
    by (simp_all add: hd_rev)
  then have "dropWhile IsPathSeparator (rev p) = rev p"
    by (cases "rev p") (simp_all add: IsPathSeparator_def)
  then show ?thesis by (simp add: strip_trailing_slashes_def)
qed

lemma last_element_split:
  "\<exists>dir. p = dir @ last_element p \<and> (dir = [] \<or> last dir = CHR ''/'')"
proof -
  let ?P = "\<lambda>c. \<not> IsPathSeparator c"
  let ?dir = "rev (dropWhile ?P (rev p))"
  have "rev (takeWhile ?P (rev p) @ dropWhile ?P (rev p)) = p"
    by (simp only: takeWhile_dropWhile_id rev_rev_ident)
  then have "?dir @ rev (takeWhile ?P (rev p)) = p"
    by (simp only: rev_append)
  then have split: "p = ?dir @ last_element p"
    by (simp only: last_element_def)
  have "?dir = [] \<or> last ?dir = CHR ''/''"
  proof (cases "dropWhile ?P (rev p) = []")
    case True
    then show ?thesis by simp
  next
    case False
    then have "\<not> ?P (hd (dropWhile ?P (rev p)))" by (rule hd_dropWhile)
    then have "hd (dropWhile ?P (rev p)) = CHR ''/''" by (simp add: IsPathSeparator_def)
    with False show ?thesis by (simp add: last_rev)
  qed
  with split show ?thesis by blast
qed

lemma last_element_nonempty:
  assumes "p \<noteq> []" and "last p \<noteq> CHR ''/''"
  shows "last_element p \<noteq> []"
proof -
  from assms have "rev p \<noteq> []" and "hd (rev p) \<noteq> CHR ''/''"
    by (simp_all add: hd_rev)
  then have "takeWhile (\<lambda>c. \<not> IsPathSeparator c) (rev p) \<noteq> []"
    by (cases "rev p") (simp_all add: IsPathSeparator_def)
  then show ?thesis by (simp add: last_element_def)
qed

lemma Base_file_path:
  assumes "p \<noteq> []" and "last p \<noteq> CHR ''/''"
  shows "Base p = last_element p"
  using assms
  by (simp add: Base_def Let_def strip_trailing_slashes_id last_element_nonempty)

lemma ext_rev_suffix: "ext_rev (rev e @ CHR ''.'' # d) acc = CHR ''.'' # e @ acc"
  if "CHR ''.'' \<notin> set e" and "CHR ''/'' \<notin> set e"
  using that
proof (induction e arbitrary: acc rule: rev_induct)
  case Nil
  then show ?case by (simp add: IsPathSeparator_def)
next
  case (snoc c e)
  then show ?case by (auto simp: IsPathSeparator_def)
qed

lemma Ext_dot_suffix:
  assumes "CHR ''.'' \<notin> set e" and "CHR ''/'' \<notin> set e"
  shows "Ext (d @ CHR ''.'' # e) = CHR ''.'' # e"
  using ext_rev_suffix [OF assms, of "rev d" "[]"] by (simp add: Ext_def)

lemma ext_rev_none: "ext_rev (rev e @ CHR ''/'' # d) acc = []"
  if "CHR ''.'' \<notin> set e"
  using that
proof (induction e arbitrary: acc rule: rev_induct)
  case Nil
  then show ?case by (simp add: IsPathSeparator_def)
next
  case (snoc c e)
  then show ?case by (auto simp: IsPathSeparator_def)
qed

lemma Ext_no_dot:
  assumes "CHR ''.'' \<notin> set e"
  shows "Ext (d @ CHR ''/'' # e) = []"
  using ext_rev_none [OF assms, of "rev d" "[]"] by (simp add: Ext_def)

subsection \<open>Attachments\<close>

text \<open>
  C3. An attachment returned by either constructor has as content type the MIME type
  that \<open>TypeByExtension\<close> gives for the extension of the file name when there is one,
  and application/octet-stream when there is none (the extension is not registered, or
  the name has no extension); the content type is never empty.
\<close>

theorem attachment_content_type:
  "(NewAttachmentFromFile env filePath = Inr a \<longrightarrow>
      (TypeByExtension env (Ext filePath) \<noteq> [] \<longrightarrow>
         ContentType a = TypeByExtension env (Ext filePath))
      \<and> (TypeByExtension env (Ext filePath) = [] \<longrightarrow>
         ContentType a = ''application/octet-stream'')
      \<and> ContentType a \<noteq> [])
   \<and> (NewAttachmentFromReader env rd filename = Inr b \<longrightarrow>
      (TypeByExtension env (Ext filename) \<noteq> [] \<longrightarrow>
         ContentType b = TypeByExtension env (Ext filename))
      \<and> (TypeByExtension env (Ext filename) = [] \<longrightarrow>
         ContentType b = ''application/octet-stream'')
      \<and> ContentType b \<noteq> [])"
  by (auto simp: NewAttachmentFromFile_def NewAttachmentFromReader_def Let_def
           split: sum.splits)

theorem attachment_content_type_witness:
  "NewAttachmentFromFile sample_env ''/tmp/docs/report.pdf''
     = Inr \<lparr>Filename = ''report.pdf'', Content = ''%PDF-1.4'',
            ContentType = ''application/pdf''\<rparr>
   \<and> Ext ''/tmp/docs/report.pdf'' = ''.pdf''
   \<and> TypeByExtension sample_env ''.pdf'' = ''application/pdf''
   \<and> NewAttachmentFromReader sample_env (Inr ''data'') ''notes.xyz''
     = Inr \<lparr>Filename = ''notes.xyz'', Content = ''data'',
            ContentType = ''application/octet-stream''\<rparr>
   \<and> TypeByExtension sample_env (Ext ''notes.xyz'') = []
   \<and> NewAttachmentFromReader sample_env (Inr ''data'') ''README''
     = Inr \<lparr>Filename = ''README'', Content = ''data'',
            ContentType = ''application/octet-stream''\<rparr>
   \<and> Ext ''README'' = []"
  using attachment_content_type [of sample_env "''/tmp/docs/report.pdf''"
      "\<lparr>Filename = ''report.pdf'', Content = ''%PDF-1.4'',
        ContentType = ''application/pdf''\<rparr>" "Inr ''data''" "''notes.xyz''"
      "\<lparr>Filename = ''notes.xyz'', Content = ''data'',
        ContentType = ''application/octet-stream''\<rparr>"]
  by (simp add: NewAttachmentFromFile_def NewAttachmentFromReader_def sample_env_def
        Ext_def Base_def strip_trailing_slashes_def last_element_def IsPathSeparator_def)

text \<open>
  C10. \<open>NewAttachmentFromFile\<close> names the attachment after the base name of the path:
  for the path of a file (not empty, no trailing slash) that is the part after the last
  slash, so the path is a directory prefix, empty or ending in a slash, followed by the
  name, and the name holds no slash. \<open>NewAttachmentFromReader\<close> keeps the file name
  it is given.
\<close>

theorem attachment_filename:
  "(NewAttachmentFromFile env filePath = Inr a \<longrightarrow>
      Filename a = Base filePath
      \<and> (filePath \<noteq> [] \<and> last filePath \<noteq> CHR ''/'' \<longrightarrow>
           CHR ''/'' \<notin> set (Filename a)
           \<and> (\<exists>dir. filePath = dir @ Filename a \<and> (dir = [] \<or> last dir = CHR ''/''))))
   \<and> (NewAttachmentFromReader env rd filename = Inr b \<longrightarrow> Filename b = filename)"
proof (intro conjI impI)
  assume "NewAttachmentFromFile env filePath = Inr a"
  then show name: "Filename a = Base filePath"
    by (auto simp: NewAttachmentFromFile_def Let_def split: sum.splits)
  assume "filePath \<noteq> [] \<and> last filePath \<noteq> CHR ''/''"
  then have base: "Base filePath = last_element filePath"
    by (simp add: Base_file_path)
  from name base show "CHR ''/'' \<notin> set (Filename a)"
    by (simp add: last_element_no_separator)
  from name base last_element_split [of filePath]
  show "\<exists>dir. filePath = dir @ Filename a \<and> (dir = [] \<or> last dir = CHR ''/'')"
    by simp
next
  assume "NewAttachmentFromReader env rd filename = Inr b"
  then show "Filename b = filename"
    by (auto simp: NewAttachmentFromReader_def Let_def split: sum.splits)
qed

theorem attachment_filename_witness:
  "NewAttachmentFromFile sample_env ''/tmp/docs/report.pdf''
     = Inr \<lparr>Filename = ''report.pdf'', Content = ''%PDF-1.4'',
            ContentType = ''application/pdf''\<rparr>
   \<and> ''/tmp/docs/report.pdf'' = ''/tmp/docs/'' @ ''report.pdf''
   \<and> NewAttachmentFromReader sample_env (Inr ''data'') ''a/b/notes.xyz''
     = Inr \<lparr>Filename = ''a/b/notes.xyz'', Content = ''data'',
            ContentType = ''application/octet-stream''\<rparr>"
  using attachment_filename [of sample_env "''/tmp/docs/report.pdf''"
      "\<lparr>Filename = ''report.pdf'', Content = ''%PDF-1.4'',
        ContentType = ''application/pdf''\<rparr>" "Inr ''data''" "''a/b/notes.xyz''"
      "\<lparr>Filename = ''a/b/notes.xyz'', Content = ''data'',
        ContentType = ''application/octet-stream''\<rparr>"]
  by (simp add: NewAttachmentFromFile_def NewAttachmentFromReader_def sample_env_def
        Ext_def Base_def strip_trailing_slashes_def last_element_def IsPathSeparator_def)

section \<open>Properties of the SMTP transport\<close>

subsection \<open>The header map\<close>

lemma Canonical_standard:
  "CanonicalMIMEHeaderKey ''From'' = ''From''"
  "CanonicalMIMEHeaderKey ''To'' = ''To''"
  "CanonicalMIMEHeaderKey ''Subject'' = ''Subject''"
  "CanonicalMIMEHeaderKey ''MIME-Version'' = ''Mime-Version''"
  "CanonicalMIMEHeaderKey ''Content-Type'' = ''Content-Type''"
  "CanonicalMIMEHeaderKey ''Reply-To'' = ''Reply-To''"
  by code_simp+

lemma standard_headers_eq:
  "standard_headers bnd msg =
     (let h = [''From'' \<mapsto> [formatAddress (From msg) (Name msg)],
               ''To'' \<mapsto> [Join (To msg) '', ''],
               ''Subject'' \<mapsto> [Subject msg],
               ''Mime-Version'' \<mapsto> [''1.0''],
               ''Content-Type'' \<mapsto> [''multipart/mixed; boundary='' @ bnd]]
      in if ReplyTo msg \<noteq> [] then h(''Reply-To'' \<mapsto> [ReplyTo msg]) else h)"
  by (simp add: standard_headers_def MIMEHeader_Set_def Canonical_standard Let_def)

lemma set_custom_other:
  "(\<forall>k \<in> set ks. k \<in> dom custom \<longrightarrow> CanonicalMIMEHeaderKey k \<noteq> K)
   \<Longrightarrow> set_custom custom h ks K = h K"
  by (induction ks arbitrary: h) (auto simp: MIMEHeader_Set_def split: option.splits)

lemma set_custom_unique:
  assumes "key \<in> set ks" and "custom key = Some val"
    and "\<forall>k \<in> set ks. k \<noteq> key \<and> k \<in> dom custom \<longrightarrow>
           CanonicalMIMEHeaderKey k \<noteq> CanonicalMIMEHeaderKey key"
  shows "set_custom custom h ks (CanonicalMIMEHeaderKey key) = Some [val]"
  using assms
proof (induction ks arbitrary: h)
  case Nil
  then show ?case by simp
next
  case (Cons a ks)
  show ?case
  proof (cases "a = key")
    case True
    show ?thesis
    proof (cases "key \<in> set ks")
      case True
      with Cons show ?thesis by (auto split: option.splits)
    next
      case False
      with Cons.prems have "\<forall>k \<in> set ks. k \<in> dom custom \<longrightarrow>
          CanonicalMIMEHeaderKey k \<noteq> CanonicalMIMEHeaderKey key"
        by auto
      then show ?thesis
        using \<open>a = key\<close> Cons.prems(2)
        by (simp add: set_custom_other MIMEHeader_Set_def)
    qed
  next
    case False
    with Cons.prems have "key \<in> set ks" by simp
    with Cons show ?thesis by (auto split: option.splits)
  qed
qed

lemma dom_set_custom:
  "dom (set_custom custom h ks) = dom h \<union> CanonicalMIMEHeaderKey ` (set ks \<inter> dom custom)"
  by (induction ks arbitrary: h) (auto simp: MIMEHeader_Set_def split: option.splits)

lemma write_headers_append:
  "write_headers h (xs @ ys) = write_headers h xs @ write_headers h ys"
  by (induction xs) (auto split: option.splits)

lemma write_headers_line:
  assumes "K \<in> set ws" and "h K = Some [v]"
  shows "\<exists>pre post. write_headers h ws = pre @ (K @ '': '' @ v @ CRLF) @ post"
proof -
  from assms(1) obtain xs ys where "ws = xs @ K # ys" by (auto dest: split_list)
  with assms(2) have "write_headers h ws
      = write_headers h xs @ (K @ '': '' @ v @ CRLF) @ write_headers h ys"
    by (simp add: write_headers_append header_lines_def)
  then show ?thesis by blast
qed

lemma write_headers_skip:
  "h K = None \<Longrightarrow> write_headers h ws = write_headers h (removeAll K ws)"
  by (induction ws) (auto split: option.splits)

subsection \<open>The multipart document\<close>

lemma sorted_html_header:
  "sort_key fst html_part_header =
     [(''Content-Transfer-Encoding'', [''quoted-printable'']),
      (''Content-Type'', [''text/html; charset=UTF-8''])]"
  unfolding html_part_header_def by simp

lemma sorted_attachment_header:
  "sort_key fst (attachment_part_header wide a) =
     [(''Content-Disposition'', [''attachment; filename='' @ Quote wide (Filename a)]),
      (''Content-Transfer-Encoding'', [''base64'']),
      (''Content-Type'', [ContentType a @ ''; name='' @ Quote wide (Filename a)])]"
  unfolding attachment_part_header_def by simp

lemma CreatePart_html:
  "\<not> lastpart mw \<Longrightarrow>
   CreatePart mw html_part_header
     = Inr (mw\<lparr>buffer := buffer mw @ mime_part (boundary mw)
               [(''Content-Transfer-Encoding'', ''quoted-printable''),
                (''Content-Type'', ''text/html; charset=UTF-8'')] [],
              lastpart := True\<rparr>)"
  by (simp add: CreatePart_def sorted_html_header mime_part_def
      header_lines_def field_line_def)

lemma add_attachments_parts:
  "lastpart mw \<Longrightarrow>
   add_attachments wide mw as
     = Inr (mw\<lparr>buffer := buffer mw
                  @ concat (map (\<lambda>a. CRLF @ attachment_part wide (boundary mw) a) as)\<rparr>)"
proof (induction as arbitrary: mw)
  case Nil
  then show ?case by simp
next
  case (Cons a as)
  let ?mw = "part_Write
      (mw\<lparr>buffer := buffer mw @ CRLF @ ''--'' @ boundary mw @ CRLF
             @ concat (map (\<lambda>(k, vs). header_lines k vs)
                 (sort_key fst (attachment_part_header wide a))) @ CRLF,
          lastpart := True\<rparr>)
      (EncodeToString (Content a))"
  have lp: "lastpart ?mw" by (simp add: part_Write_def)
  have step: "add_attachments wide mw (a # as) = add_attachments wide ?mw as"
    using Cons.prems by (simp add: CreatePart_def)
  have buf: "buffer ?mw = buffer mw @ CRLF @ attachment_part wide (boundary mw) a"
    by (simp add: part_Write_def sorted_attachment_header attachment_part_def mime_part_def
        header_lines_def field_line_def)
  have bnd: "boundary ?mw = boundary mw" by (simp add: part_Write_def)
  show ?case
    unfolding step Cons.IH [OF lp] buf bnd
    using Cons.prems by (cases mw) (simp add: part_Write_def)
qed

lemma assemble_document:
  "assemble run msg =
     Inr (header_block run msg @ CRLF
          @ html_part (Boundary run) (HTML msg)
          @ concat (map (\<lambda>a. CRLF @ attachment_part (PrintTable run) (Boundary run) a)
              (Attachments msg))
          @ closing_line (Boundary run))"
proof -
  define w1 where
    "w1 = part_Write (part_Write (NewWriter [] (Boundary run)) (header_block run msg)) CRLF"
  define w2 where
    "w2 = w1\<lparr>buffer := buffer w1 @ mime_part (boundary w1)
               [(''Content-Transfer-Encoding'', ''quoted-printable''),
                (''Content-Type'', ''text/html; charset=UTF-8'')] [],
              lastpart := True\<rparr>"
  define w3 where "w3 = part_Write w2 (HTML msg)"
  have w1: "\<not> lastpart w1" "buffer w1 = header_block run msg @ CRLF"
    "boundary w1 = Boundary run"
    by (simp_all add: w1_def part_Write_def NewWriter_def)
  have part: "CreatePart w1 html_part_header = Inr w2"
    unfolding w2_def using w1(1) by (rule CreatePart_html)
  have w3: "lastpart w3" "boundary w3 = Boundary run"
    "buffer w3 = header_block run msg @ CRLF @ html_part (Boundary run) (HTML msg)"
    by (simp_all add: w3_def w2_def w1 part_Write_def html_part_def mime_part_def)
  have atts: "add_attachments (PrintTable run) w3 (Attachments msg)
      = Inr (w3\<lparr>buffer := buffer w3
               @ concat (map (\<lambda>a. CRLF @ attachment_part (PrintTable run) (boundary w3) a)
                   (Attachments msg))\<rparr>)"
    using w3(1) by (rule add_attachments_parts)
  have "assemble run msg
      = (case CreatePart w1 html_part_header of
           Inl err \<Rightarrow> Inl (''error creating HTML part: '' @ err)
         | Inr writer \<Rightarrow>
             (case add_attachments (PrintTable run) (part_Write writer (HTML msg))
                     (Attachments msg) of
                Inl err \<Rightarrow> Inl err
              | Inr writer \<Rightarrow> Inr (buffer (Writer_Close writer))))"
    by (simp only: assemble_def Let_def w1_def)
  also have "\<dots> = Inr (buffer (Writer_Close (w3\<lparr>buffer := buffer w3
               @ concat (map (\<lambda>a. CRLF @ attachment_part (PrintTable run) (boundary w3) a)
                   (Attachments msg))\<rparr>)))"
    by (simp only: part sum.case w3_def [symmetric] atts)
  also have "\<dots> = Inr (header_block run msg @ CRLF
          @ html_part (Boundary run) (HTML msg)
          @ concat (map (\<lambda>a. CRLF @ attachment_part (PrintTable run) (Boundary run) a)
              (Attachments msg))
          @ closing_line (Boundary run))"
    by (simp add: Writer_Close_def w3 closing_line_def)
  finally show ?thesis .
qed

lemma SendEmail_document:
  "SMTPClient_SendEmail run c msg =
     (case SendMail run (Host c @ '':'' @ Itoa (Port c)) (Auth c) (From msg) (To msg)
             (header_block run msg @ CRLF
              @ html_part (Boundary run) (HTML msg)
              @ concat (map (\<lambda>a. CRLF @ attachment_part (PrintTable run) (Boundary run) a)
                  (Attachments msg))
              @ closing_line (Boundary run)) of
        Some err \<Rightarrow> Some (''error sending email: '' @ err)
      | None \<Rightarrow> None)"
  by (simp add: SMTPClient_SendEmail_def assemble_document)




lemma length_EncodeToString: "length (EncodeToString s) = 4 * ((length s + 2) div 3)"
proof (induction s rule: EncodeToString.induct)
  case (1 a b c src)
  have "(length src + 3 + 2) div 3 = Suc ((length src + 2) div 3)" by arith
  with 1 show ?case by (simp add: Let_def)
qed (simp_all add: Let_def)

subsection \<open>Attachment parts\<close>

lemma base64_samples:
  "EncodeToString ''%PDF-1.4'' = ''JVBERi0xLjQ=''"
  "EncodeToString ''hello'' = ''aGVsbG8=''"
  by (simp_all add: encodeStd_def byte_def)




subsection \<open>The HTML part\<close>

text \<open>
  C4. The HTML part of the assembled document carries the header
  Content-Transfer-Encoding: quoted-printable, and its content is the HTML field byte
  for byte: nothing is encoded.
\<close>

theorem html_part_raw_content:
  "assemble run msg =
     Inr (header_block run msg @ CRLF
          @ ''--'' @ Boundary run @ CRLF
          @ ''Content-Transfer-Encoding: quoted-printable'' @ CRLF
          @ ''Content-Type: text/html; charset=UTF-8'' @ CRLF
          @ CRLF
          @ HTML msg
          @ concat (map (\<lambda>a. CRLF @ attachment_part (PrintTable run) (Boundary run) a)
              (Attachments msg))
          @ closing_line (Boundary run))"
  by (simp add: assemble_document html_part_def mime_part_def field_line_def)

theorem html_part_raw_content_witness:
  "assemble run_attach msg_attach =
     Inr (header_block run_attach msg_attach @ CRLF
          @ ''--4f1d2c'' @ CRLF
          @ ''Content-Transfer-Encoding: quoted-printable'' @ CRLF
          @ ''Content-Type: text/html; charset=UTF-8'' @ CRLF
          @ CRLF
          @ ''<p>caf'' @ [CHR 0xC3, CHR 0xA9] @ '' = 2 files</p>''
          @ concat (map (\<lambda>a. CRLF @ attachment_part (PrintTable run_attach) ''4f1d2c'' a)
              [att_report, att_notes])
          @ CRLF @ ''--4f1d2c--'' @ CRLF)"
  using html_part_raw_content [of run_attach msg_attach]
  by (simp add: run_attach_def msg_attach_def closing_line_def)

subsection \<open>Fields of the header block\<close>

lemma write_headers_fields:
  "write_headers h ws = concat (map field_line (header_fields h ws))"
  by (induction ws)
     (auto simp: header_lines_def field_line_def comp_def split: option.splits)

lemma header_fields_absent:
  "K \<notin> set ws \<Longrightarrow> filter (\<lambda>f. fst f = K) (header_fields h ws) = []"
  by (induction ws) (auto simp: filter_empty_conv split: option.splits)

lemma header_fields_key:
  assumes "distinct ws" and "K \<in> set ws" and "h K = Some vals"
  shows "filter (\<lambda>f. fst f = K) (header_fields h ws) = map (Pair K) vals"
  using assms
proof (induction ws)
  case Nil
  then show ?case by simp
next
  case (Cons a ws)
  show ?case
  proof (cases "a = K")
    case True
    with Cons.prems have "K \<notin> set ws" by simp
    then have "filter (\<lambda>f. fst f = K) (header_fields h ws) = []"
      by (rule header_fields_absent)
    moreover have "filter (\<lambda>f. fst f = K) (map (Pair K) vals) = map (Pair K) vals"
      by (induction vals) simp_all
    ultimately show ?thesis using True Cons.prems(3) by simp
  next
    case False
    with Cons.prems have "K \<in> set ws" and "distinct ws" by simp_all
    with Cons.IH Cons.prems(3)
    have IH: "filter (\<lambda>f. fst f = K) (header_fields h ws) = map (Pair K) vals" by simp
    have nomatch: "filter (\<lambda>f. fst f = K) (map (Pair a) xs) = []" for xs
      using False by (induction xs) simp_all
    show ?thesis
    proof (cases "h a")
      case None
      with IH show ?thesis by simp
    next
      case (Some xs)
      then have "header_fields h (a # ws) = map (Pair a) xs @ header_fields h ws"
        by simp
      then show ?thesis
        by (simp only: filter_append nomatch IH append_Nil)
    qed
  qed
qed

lemma header_fields_dom: "fst ` set (header_fields h ws) \<subseteq> set ws \<inter> dom h"
  by (induction ws) (auto split: option.splits)

lemma distinct_header_keys:
  assumes "distinct ws" and "\<forall>K vals. h K = Some vals \<longrightarrow> length vals \<le> 1"
  shows "distinct (map fst (header_fields h ws))"
  using assms(1)
proof (induction ws)
  case Nil
  then show ?case by simp
next
  case (Cons a ws)
  then have IH: "distinct (map fst (header_fields h ws))" and a: "a \<notin> set ws" by simp_all
  from a header_fields_dom [of h ws] have notin: "a \<notin> fst ` set (header_fields h ws)"
    by blast
  show ?case
  proof (cases "h a")
    case None
    with IH show ?thesis by simp
  next
    case (Some vals)
    with assms(2) have "length vals \<le> 1" by blast
    then have "vals = [] \<or> (\<exists>v. vals = [v])"
      by (cases vals) (auto simp: length_Suc_conv)
    with Some IH notin show ?thesis by auto
  qed
qed

lemma MIMEHeader_Set_single:
  "\<forall>K vals. h K = Some vals \<longrightarrow> length vals \<le> 1
   \<Longrightarrow> \<forall>K vals. MIMEHeader_Set h key val K = Some vals \<longrightarrow> length vals \<le> 1"
  by (auto simp: MIMEHeader_Set_def)

lemma set_custom_single:
  "\<forall>K vals. h K = Some vals \<longrightarrow> length vals \<le> 1
   \<Longrightarrow> \<forall>K vals. set_custom custom h ks K = Some vals \<longrightarrow> length vals \<le> 1"
proof (induction ks arbitrary: h)
  case Nil
  then show ?case by simp
next
  case (Cons a ks)
  show ?case
  proof (cases "custom a")
    case None
    with Cons show ?thesis by simp
  next
    case (Some v)
    from Cons.prems have "\<forall>K vals. MIMEHeader_Set h a v K = Some vals \<longrightarrow> length vals \<le> 1"
      by (rule MIMEHeader_Set_single)
    then have "\<forall>K vals. set_custom custom (MIMEHeader_Set h a v) ks K = Some vals
        \<longrightarrow> length vals \<le> 1"
      by (rule Cons.IH)
    with Some show ?thesis by simp
  qed
qed

lemma standard_headers_single:
  "\<forall>K vals. standard_headers bnd msg K = Some vals \<longrightarrow> length vals \<le> 1"
  by (auto simp: standard_headers_eq Let_def split: if_splits)

lemma message_headers_single:
  "\<forall>K vals. message_headers run msg K = Some vals \<longrightarrow> length vals \<le> 1"
  unfolding message_headers_def
  by (rule set_custom_single) (rule standard_headers_single)

lemma dom_message_headers:
  "dom (message_headers run msg) =
     {''From'', ''To'', ''Subject'', ''Mime-Version'', ''Content-Type''}
     \<union> (if ReplyTo msg \<noteq> [] then {''Reply-To''} else {})
     \<union> CanonicalMIMEHeaderKey ` (set (RangeCustom run) \<inter> dom (Headers msg))"
  by (auto simp: message_headers_def dom_set_custom standard_headers_eq Let_def)

subsection \<open>Custom headers\<close>

lemma Canonical_samples:
  "CanonicalMIMEHeaderKey ''x-test-header'' = ''X-Test-Header''"
  by (simp_all add: CanonicalMIMEHeaderKey_def validHeaderFieldByte_def isLower_def
      isUpper_def isDigit_def toUpper_def toLower_def Let_def)

lemma range_custom_sample:
  "range_of (Headers msg_custom) (RangeCustom run_custom)"
  by (simp add: range_of_def msg_custom_def run_custom_def)

lemma range_headers_sample:
  "range_of (message_headers run_custom msg_custom) (RangeHeaders run_custom)"
  unfolding range_of_def dom_message_headers
  by (auto simp: run_custom_def msg_custom_def Canonical_samples)

lemma fields_custom_sample:
  "header_fields (message_headers run_custom msg_custom) (RangeHeaders run_custom)
     = [(''X-Test-Header'', ''test-value''),
        (''From'', ''Sender <sender@example.com>''),
        (''To'', ''rcpt@example.com''),
        (''Subject'', ''Hello''),
        (''Mime-Version'', ''1.0''),
        (''Content-Type'', ''multipart/mixed; boundary=4f1d2c'')]"
  by (simp add: message_headers_def standard_headers_eq run_custom_def msg_custom_def
      MIMEHeader_Set_def Canonical_samples formatAddress_def)

text \<open>
  C5. A custom header is set under the canonical form of its key (\<open>MIMEHeader.Set\<close>),
  not under the key as the caller wrote it. When no other custom header has the same
  canonical key, the header block has exactly one field with that canonical key, and its
  value is the caller's value unchanged: the block contains the line made of the
  canonical key, a colon and a space, the value and a line break. The block is the
  sequence of the lines of its fields in the order in which the header map is visited,
  with one field for each canonical key: a later value set under the same canonical key
  replaces the earlier one, and custom headers need not come after the standard ones.
\<close>

theorem custom_header_canonical:
  assumes "range_of (Headers msg) (RangeCustom run)"
    and "range_of (message_headers run msg) (RangeHeaders run)"
    and "Headers msg key = Some val"
    and "\<forall>k \<in> dom (Headers msg). k \<noteq> key \<longrightarrow>
           CanonicalMIMEHeaderKey k \<noteq> CanonicalMIMEHeaderKey key"
  shows "header_block run msg
           = concat (map field_line
               (header_fields (message_headers run msg) (RangeHeaders run)))
         \<and> filter (\<lambda>f. fst f = CanonicalMIMEHeaderKey key)
               (header_fields (message_headers run msg) (RangeHeaders run))
             = [(CanonicalMIMEHeaderKey key, val)]
         \<and> distinct (map fst (header_fields (message_headers run msg) (RangeHeaders run)))
         \<and> (\<exists>pre post. header_block run msg
               = pre @ CanonicalMIMEHeaderKey key @ '': '' @ val @ CRLF @ post)"
proof -
  let ?K = "CanonicalMIMEHeaderKey key"
  let ?h = "message_headers run msg"
  from assms(1,3) have key_in: "key \<in> set (RangeCustom run)"
    by (auto simp: range_of_def)
  have others: "\<forall>k \<in> set (RangeCustom run). k \<noteq> key \<and> k \<in> dom (Headers msg) \<longrightarrow>
      CanonicalMIMEHeaderKey k \<noteq> ?K"
    using assms(4) by blast
  have hK: "?h ?K = Some [val]"
    unfolding message_headers_def
    using key_in assms(3) others by (rule set_custom_unique)
  from assms(2) have dist: "distinct (RangeHeaders run)"
    and K_in: "?K \<in> set (RangeHeaders run)"
    using hK by (auto simp: range_of_def)
  have block: "header_block run msg
      = concat (map field_line (header_fields ?h (RangeHeaders run)))"
    by (simp add: header_block_def write_headers_fields)
  moreover have "filter (\<lambda>f. fst f = ?K) (header_fields ?h (RangeHeaders run)) = [(?K, val)]"
    using header_fields_key [of "RangeHeaders run" ?K ?h "[val]", OF dist K_in hK] by simp
  moreover have "distinct (map fst (header_fields ?h (RangeHeaders run)))"
    using dist message_headers_single by (rule distinct_header_keys)
  moreover have "\<exists>pre post. header_block run msg = pre @ ?K @ '': '' @ val @ CRLF @ post"
    using write_headers_line [of ?K "RangeHeaders run" ?h val, OF K_in hK]
    by (simp add: header_block_def)
  ultimately show ?thesis by blast
qed

theorem custom_header_canonical_witness:
  "range_of (Headers msg_custom) (RangeCustom run_custom)
   \<and> range_of (message_headers run_custom msg_custom) (RangeHeaders run_custom)
   \<and> Headers msg_custom ''x-test-header'' = Some ''test-value''
   \<and> CanonicalMIMEHeaderKey ''x-test-header'' = ''X-Test-Header''
   \<and> filter (\<lambda>f. fst f = ''X-Test-Header'')
         (header_fields (message_headers run_custom msg_custom) (RangeHeaders run_custom))
       = [(''X-Test-Header'', ''test-value'')]
   \<and> distinct (map fst
         (header_fields (message_headers run_custom msg_custom) (RangeHeaders run_custom)))"
proof -
  have val: "Headers msg_custom ''x-test-header'' = Some ''test-value''"
    by (simp add: msg_custom_def)
  have only: "\<forall>k \<in> dom (Headers msg_custom). k \<noteq> ''x-test-header'' \<longrightarrow>
      CanonicalMIMEHeaderKey k \<noteq> CanonicalMIMEHeaderKey ''x-test-header''"
    by (simp add: msg_custom_def)
  from custom_header_canonical [OF range_custom_sample range_headers_sample val only]
  show ?thesis
    using range_custom_sample range_headers_sample val
    by (simp only: Canonical_samples simp_thms)
qed

text \<open>
  The claim as the specification states it (key unchanged) fails for a key in lower
  case: the header x-test-header is written as X-Test-Header, here before the standard
  headers, and the key as written occurs nowhere in the block.
\<close>

theorem custom_header_verbatim_counterexample:
  "Headers msg_custom ''x-test-header'' = Some ''test-value''
   \<and> range_of (Headers msg_custom) (RangeCustom run_custom)
   \<and> range_of (message_headers run_custom msg_custom) (RangeHeaders run_custom)
   \<and> header_fields (message_headers run_custom msg_custom) (RangeHeaders run_custom)
     = [(''X-Test-Header'', ''test-value''),
        (''From'', ''Sender <sender@example.com>''),
        (''To'', ''rcpt@example.com''),
        (''Subject'', ''Hello''),
        (''Mime-Version'', ''1.0''),
        (''Content-Type'', ''multipart/mixed; boundary=4f1d2c'')]
   \<and> (''x-test-header'', ''test-value'')
       \<notin> set (header_fields (message_headers run_custom msg_custom) (RangeHeaders run_custom))
   \<and> \<not> Contains (header_block run_custom msg_custom) ''x-test-header''"
proof (intro conjI)
  show "Headers msg_custom ''x-test-header'' = Some ''test-value''"
    by (simp add: msg_custom_def)
  show "(''x-test-header'', ''test-value'')
       \<notin> set (header_fields (message_headers run_custom msg_custom) (RangeHeaders run_custom))"
    unfolding fields_custom_sample by simp
  show "\<not> Contains (header_block run_custom msg_custom) ''x-test-header''"
    unfolding header_block_def write_headers_fields fields_custom_sample
    by (simp add: field_line_def CRLF_def)
qed (rule range_custom_sample range_headers_sample fields_custom_sample)+

section \<open>Properties of the REST transport\<close>

subsection \<open>Marshalling and unmarshalling a request\<close>

lemma matches_names:
  "matches ''from'' ''from''"
  "\<not> matches ''to'' ''from''" "matches ''to'' ''to''"
  "\<not> matches ''subject'' ''from''" "\<not> matches ''subject'' ''to''"
  "matches ''subject'' ''subject''"
  "\<not> matches ''html'' ''from''" "\<not> matches ''html'' ''to''"
  "\<not> matches ''html'' ''subject''" "matches ''html'' ''html''"
  "\<not> matches ''name'' ''from''" "\<not> matches ''name'' ''to''"
  "\<not> matches ''name'' ''subject''" "\<not> matches ''name'' ''html''"
  "matches ''name'' ''name''"
  "\<not> matches ''reply_to'' ''from''" "\<not> matches ''reply_to'' ''to''"
  "\<not> matches ''reply_to'' ''subject''" "\<not> matches ''reply_to'' ''html''"
  "\<not> matches ''reply_to'' ''name''" "matches ''reply_to'' ''reply_to''"
  "\<not> matches ''headers'' ''from''" "\<not> matches ''headers'' ''to''"
  "\<not> matches ''headers'' ''subject''" "\<not> matches ''headers'' ''html''"
  "\<not> matches ''headers'' ''name''" "\<not> matches ''headers'' ''reply_to''"
  "matches ''headers'' ''headers''"
  "matches ''error'' ''error''"
  by (simp_all add: matches_def toUpper_def)

lemma store_member_fields:
  "store_member ''from'' (JString s) req = (None, req\<lparr>EmailRequest.From := s\<rparr>)"
  "store_member ''to'' (JString s) req = (None, req\<lparr>EmailRequest.To := s\<rparr>)"
  "store_member ''subject'' (JString s) req = (None, req\<lparr>EmailRequest.Subject := s\<rparr>)"
  "store_member ''html'' (JString s) req = (None, req\<lparr>EmailRequest.HTML := s\<rparr>)"
  "store_member ''name'' (JString s) req = (None, req\<lparr>EmailRequest.Name := s\<rparr>)"
  "store_member ''reply_to'' (JString s) req = (None, req\<lparr>EmailRequest.ReplyTo := s\<rparr>)"
  "store_member ''headers'' v req =
     (fst (store_map v (EmailRequest.Headers req)),
      req\<lparr>EmailRequest.Headers := snd (store_map v (EmailRequest.Headers req))\<rparr>)"
  by (simp_all add: store_member_def matches_names split_beta)

lemma first_error_None: "first_error saved None = saved"
  by (cases saved) (simp_all add: first_error_def)

lemma unmarshal_map_strings:
  "unmarshal_map (map (\<lambda>k. (k, JString (f k))) ks) (saved, m0)
     = (saved, \<lambda>x. if x \<in> set ks then Some (f x) else m0 x)"
proof (induction ks arbitrary: m0)
  case Nil
  then show ?case by simp
next
  case (Cons k ks)
  have step: "unmarshal_map (map (\<lambda>k. (k, JString (f k))) (k # ks)) (saved, m0)
      = unmarshal_map (map (\<lambda>k. (k, JString (f k))) ks) (saved, m0(k \<mapsto> f k))"
    by (simp add: first_error_None)
  have eq: "(\<lambda>x. if x \<in> set ks then Some (f x) else (m0(k \<mapsto> f k)) x)
      = (\<lambda>x. if x \<in> set (k # ks) then Some (f x) else m0 x)"
    by (rule ext) simp
  show ?case
    unfolding step Cons.IH [of "m0(k \<mapsto> f k)"] eq ..
qed

lemma marshal_map_valid:
  assumes "\<forall>k \<in> dom m. ValidString k \<and> ValidString (the (m k))" and "finite (dom m)"
  shows "marshal_map m
           = JObject (map (\<lambda>k. (k, JString (the (m k)))) (sorted_list_of_set (dom m)))"
proof -
  have "map (\<lambda>k. (ToValidUTF8 k, JString (ToValidUTF8 (the (m k)))))
            (sorted_list_of_set (dom m))
        = map (\<lambda>k. (k, JString (the (m k)))) (sorted_list_of_set (dom m))"
    using assms by (intro map_cong refl) (simp add: ValidString_def)
  then show ?thesis by (simp add: marshal_map_def)
qed

lemma store_map_marshal_map:
  assumes "\<forall>k \<in> dom m. ValidString k \<and> ValidString (the (m k))" and "finite (dom m)"
  shows "store_map (marshal_map m) Map.empty = (None, m)"
proof -
  have "(\<lambda>x. if x \<in> set (sorted_list_of_set (dom m)) then Some (the (m x)) else None) = m"
    using assms(2) by (intro ext) (auto simp: domIff)
  then show ?thesis
    by (simp add: marshal_map_valid [OF assms] unmarshal_map_strings)
qed

lemma Unmarshal_marshal_request:
  assumes "ValidString (EmailRequest.From req)" and "ValidString (EmailRequest.To req)"
    and "ValidString (EmailRequest.Subject req)" and "ValidString (EmailRequest.HTML req)"
    and "ValidString (EmailRequest.Name req)" and "ValidString (EmailRequest.ReplyTo req)"
    and "\<forall>k \<in> dom (EmailRequest.Headers req).
           ValidString k \<and> ValidString (the (EmailRequest.Headers req k))"
    and "finite (dom (EmailRequest.Headers req))"
  shows "Unmarshal (marshal_request req) zero_request = (None, req)"
proof -
  have hdr: "store_map (marshal_map (EmailRequest.Headers req)) Map.empty
      = (None, EmailRequest.Headers req)"
    using assms(7,8) by (rule store_map_marshal_map)
  have empty: "dom (EmailRequest.Headers req) = {} \<Longrightarrow> EmailRequest.Headers req = Map.empty"
    by simp
  show ?thesis
    using assms(1-6) hdr empty
    by (cases req)
       (simp add: marshal_request_def zero_request_def store_member_fields
          first_error_None ValidString_def)
qed
lemma marshal_request_valid:
  assumes "ValidString (EmailRequest.From req)" and "ValidString (EmailRequest.To req)"
    and "ValidString (EmailRequest.Subject req)" and "ValidString (EmailRequest.HTML req)"
    and "ValidString (EmailRequest.Name req)" and "ValidString (EmailRequest.ReplyTo req)"
    and "\<forall>k \<in> dom (EmailRequest.Headers req).
           ValidString k \<and> ValidString (the (EmailRequest.Headers req k))"
    and "finite (dom (EmailRequest.Headers req))"
  shows "members (marshal_request req)
           = [(''from'', JString (EmailRequest.From req)),
              (''to'', JString (EmailRequest.To req)),
              (''subject'', JString (EmailRequest.Subject req)),
              (''html'', JString (EmailRequest.HTML req))]
             @ (if EmailRequest.Name req = [] then []
                else [(''name'', JString (EmailRequest.Name req))])
             @ (if EmailRequest.ReplyTo req = [] then []
                else [(''reply_to'', JString (EmailRequest.ReplyTo req))])
             @ (if dom (EmailRequest.Headers req) = {} then []
                else [(''headers'',
                       JObject (map (\<lambda>k. (k, JString (the (EmailRequest.Headers req k))))
                                  (sorted_list_of_set (dom (EmailRequest.Headers req)))))])"
  using assms(1-6) marshal_map_valid [OF assms(7,8)]
  by (simp add: marshal_request_def ValidString_def)

lemma no_null_members: "JNull \<notin> snd ` set (members (marshal_request req))"
  by (auto simp: marshal_request_def marshal_map_def)

lemma valid_samples:
  "ValidString ''sender@example.com''" "ValidString ''rcpt@example.com''"
  "ValidString ''Test Email''" "ValidString ''Test''" "ValidString []"
  "ValidString ''Test Sender''" "ValidString ''reply@example.com''"
  "ValidString ''X-Test-Header''" "ValidString ''test-value''"
  by (simp_all add: ValidString_def byte_def)

lemma invalid_sample: "ToValidUTF8 [CHR 0xFF] = [CHR 0xEF, CHR 0xBF, CHR 0xBD]"
  by (simp add: byte_def RuneError_def replacement_def)

text \<open>
  C8. For a request whose strings (the fields, and the keys and values of the header
  map) are valid UTF-8, the emitted JSON object has the members from, to, subject and
  html with the values of the fields, the members name, reply_to and headers with
  their values exactly when these fields are not empty, no member is null, and
  unmarshalling the object into an empty request gives back the request.
\<close>

theorem request_roundtrip:
  assumes "ValidString (EmailRequest.From req)" and "ValidString (EmailRequest.To req)"
    and "ValidString (EmailRequest.Subject req)" and "ValidString (EmailRequest.HTML req)"
    and "ValidString (EmailRequest.Name req)" and "ValidString (EmailRequest.ReplyTo req)"
    and "\<forall>k \<in> dom (EmailRequest.Headers req).
           ValidString k \<and> ValidString (the (EmailRequest.Headers req k))"
    and "finite (dom (EmailRequest.Headers req))"
  shows "members (marshal_request req)
           = [(''from'', JString (EmailRequest.From req)),
              (''to'', JString (EmailRequest.To req)),
              (''subject'', JString (EmailRequest.Subject req)),
              (''html'', JString (EmailRequest.HTML req))]
             @ (if EmailRequest.Name req = [] then []
                else [(''name'', JString (EmailRequest.Name req))])
             @ (if EmailRequest.ReplyTo req = [] then []
                else [(''reply_to'', JString (EmailRequest.ReplyTo req))])
             @ (if dom (EmailRequest.Headers req) = {} then []
                else [(''headers'',
                       JObject (map (\<lambda>k. (k, JString (the (EmailRequest.Headers req k))))
                                  (sorted_list_of_set (dom (EmailRequest.Headers req)))))])
         \<and> JNull \<notin> snd ` set (members (marshal_request req))
         \<and> Marshal req = Inr (marshal_request req)
         \<and> Unmarshal (marshal_request req) zero_request = (None, req)"
  using marshal_request_valid [OF assms] no_null_members [of req]
    Unmarshal_marshal_request [OF assms]
  by (simp only: Marshal_def simp_thms)

theorem request_roundtrip_witness:
  "members (marshal_request req_full)
     = [(''from'', JString ''sender@example.com''),
        (''to'', JString ''rcpt@example.com''),
        (''subject'', JString ''Test Email''),
        (''html'', JString ''Test''),
        (''name'', JString ''Test Sender''),
        (''reply_to'', JString ''reply@example.com''),
        (''headers'', JObject [(''X-Test-Header'', JString ''test-value'')])]
   \<and> Unmarshal (marshal_request req_full) zero_request = (None, req_full)"
proof -
  have v: "ValidString (EmailRequest.From req_full)" "ValidString (EmailRequest.To req_full)"
    "ValidString (EmailRequest.Subject req_full)" "ValidString (EmailRequest.HTML req_full)"
    "ValidString (EmailRequest.Name req_full)" "ValidString (EmailRequest.ReplyTo req_full)"
    by (simp_all add: req_full_def req_basic_def valid_samples)
  have h: "\<forall>k \<in> dom (EmailRequest.Headers req_full).
      ValidString k \<and> ValidString (the (EmailRequest.Headers req_full k))"
    by (simp add: req_full_def req_basic_def valid_samples)
  have f: "finite (dom (EmailRequest.Headers req_full))"
    by (simp add: req_full_def)
  from request_roundtrip [OF v h f] show ?thesis
    by (simp add: req_full_def req_basic_def)
qed

text \<open>
  The claim for every request fails for a string that is not valid UTF-8: the subject
  of one invalid byte is emitted as U+FFFD, and that is what comes back.
\<close>

theorem request_roundtrip_counterexample:
  "EmailRequest.Subject req_invalid = [CHR 0xFF]
   \<and> members (marshal_request req_invalid)
     = [(''from'', JString ''sender@example.com''),
        (''to'', JString ''rcpt@example.com''),
        (''subject'', JString [CHR 0xEF, CHR 0xBF, CHR 0xBD]),
        (''html'', JString ''Test'')]
   \<and> EmailRequest.Subject (snd (Unmarshal (marshal_request req_invalid) zero_request))
       = [CHR 0xEF, CHR 0xBF, CHR 0xBD]
   \<and> snd (Unmarshal (marshal_request req_invalid) zero_request) \<noteq> req_invalid"
proof -
  have m: "marshal_request req_invalid
     = JObject [(''from'', JString ''sender@example.com''),
        (''to'', JString ''rcpt@example.com''),
        (''subject'', JString [CHR 0xEF, CHR 0xBF, CHR 0xBD]),
        (''html'', JString ''Test'')]"
    by (simp add: marshal_request_def req_invalid_def req_basic_def byte_def
        RuneError_def replacement_def)
  have u: "snd (Unmarshal (marshal_request req_invalid) zero_request)
      = req_basic\<lparr>EmailRequest.Subject := [CHR 0xEF, CHR 0xBF, CHR 0xBD]\<rparr>"
    unfolding m
    by (simp add: store_member_fields first_error_None zero_request_def req_basic_def)
  have subj: "EmailRequest.Subject req_invalid = [CHR 0xFF]"
    by (simp add: req_invalid_def)
  have mem: "members (marshal_request req_invalid)
     = [(''from'', JString ''sender@example.com''),
        (''to'', JString ''rcpt@example.com''),
        (''subject'', JString [CHR 0xEF, CHR 0xBF, CHR 0xBD]),
        (''html'', JString ''Test'')]"
    unfolding m by simp
  have ret: "EmailRequest.Subject (snd (Unmarshal (marshal_request req_invalid) zero_request))
       = [CHR 0xEF, CHR 0xBF, CHR 0xBD]"
    unfolding u by simp
  have ne: "snd (Unmarshal (marshal_request req_invalid) zero_request) \<noteq> req_invalid"
    unfolding u by (simp add: req_invalid_def req_basic_def)
  from subj mem ret ne show ?thesis by (intro conjI)
qed

subsection \<open>The response\<close>

lemma Itoa_samples:
  "Itoa 500 = ''500''" "Itoa 502 = ''502''" "Itoa 429 = ''429''" "Itoa 587 = ''587''"
  by (simp_all add: Itoa_def decimal.simps digit_def)

lemma error_members_skip:
  "\<forall>f \<in> set kvs. \<not> matches (fst f) ''error'' \<Longrightarrow> error_members kvs st = st"
  by (induction kvs st rule: error_members.induct) auto

lemma error_members_single:
  assumes "matches k ''error''"
    and "\<forall>f \<in> set (pre @ post). \<not> matches (fst f) ''error''"
  shows "error_members (pre @ (k, JString m) # post) (None, []) = (None, m)"
proof -
  have app: "error_members (xs @ ys) st = error_members ys (error_members xs st)"
    for xs ys st
    by (induction xs st rule: error_members.induct) (auto simp: split_beta)
  from assms(2) have "error_members pre (None, []) = (None, [])"
    and "error_members post (None, m) = (None, m)"
    by (simp_all add: error_members_skip)
  with assms(1) show ?thesis
    by (simp add: app first_error_None)
qed

lemma Decode_errResp_cases:
  "ReadValue run body = Inl e \<Longrightarrow> Decode_errResp run body = Inl e"
  "ReadValue run body = Inr JNull \<Longrightarrow> Decode_errResp run body = Inr []"
  "ReadValue run body = Inr (JObject kvs) \<Longrightarrow>
     \<forall>f \<in> set kvs. \<not> matches (fst f) ''error'' \<Longrightarrow> Decode_errResp run body = Inr []"
  "ReadValue run body = Inr (JObject (pre @ (k, JString m) # post)) \<Longrightarrow>
     matches k ''error'' \<Longrightarrow> \<forall>f \<in> set (pre @ post). \<not> matches (fst f) ''error'' \<Longrightarrow>
     Decode_errResp run body = Inr m"
  "ReadValue run body = Inr v \<Longrightarrow> v \<noteq> JNull \<Longrightarrow> \<forall>kvs. v \<noteq> JObject kvs \<Longrightarrow>
     Decode_errResp run body = Inl UnmarshalTypeError"
proof -
  show "ReadValue run body = Inl e \<Longrightarrow> Decode_errResp run body = Inl e"
    by (simp add: Decode_errResp_def)
  show "ReadValue run body = Inr JNull \<Longrightarrow> Decode_errResp run body = Inr []"
    by (simp add: Decode_errResp_def)
  show "ReadValue run body = Inr (JObject kvs) \<Longrightarrow>
     \<forall>f \<in> set kvs. \<not> matches (fst f) ''error'' \<Longrightarrow> Decode_errResp run body = Inr []"
    by (simp add: Decode_errResp_def error_members_skip)
  show "ReadValue run body = Inr (JObject (pre @ (k, JString m) # post)) \<Longrightarrow>
     matches k ''error'' \<Longrightarrow> \<forall>f \<in> set (pre @ post). \<not> matches (fst f) ''error'' \<Longrightarrow>
     Decode_errResp run body = Inr m"
    by (simp add: Decode_errResp_def error_members_single)
  show "ReadValue run body = Inr v \<Longrightarrow> v \<noteq> JNull \<Longrightarrow> \<forall>kvs. v \<noteq> JObject kvs \<Longrightarrow>
     Decode_errResp run body = Inl UnmarshalTypeError"
    by (cases v) (simp_all add: Decode_errResp_def)
qed

lemma sample_request_built:
  "build_request (server resp) (NewClient ''key'') (Some Background) req_basic
     = Inr (Header_Set
             (Header_Set
               \<lparr>Ctx = Background, Method = ''POST'',
                  URL = ''https://api.shoutbox.net/send'', Header = Map.empty,
                  Body = sample_text (marshal_request req_basic)\<rparr>
               ''Authorization'' ''Bearer key'')
             ''Content-Type'' ''application/json'')"
  by (simp add: build_request_def Marshal_def NewRequestWithContext_def server_def
      NewClient_def)

lemma sample_server_answers: "Do (server resp) httpReq = Inr resp"
  by (simp add: server_def)

text \<open>
  C1. Once the request is built and the server has answered: with status 200 no error
  is returned. With another status, the error is the text api error followed by the
  decoded field Error when the body decodes into the error struct without error, and
  a generic message ending in the decimal status code when it does not. The body
  decodes without error when its first JSON value is an object or null: for an object
  with a single member for the key error, holding a string, the decoded field is that
  string, the server's message; for an object without such a member, and for null, it
  is empty. A body that cannot be read as JSON, or whose value is of another type,
  gives the generic message.
\<close>

theorem rest_error_message:
  assumes "build_request run c ctx req = Inr httpReq" and "Do run httpReq = Inr resp"
  shows "(StatusCode resp = 200 \<longrightarrow> Client_SendEmail run c ctx req = None)
    \<and> (StatusCode resp \<noteq> 200 \<longrightarrow>
         Client_SendEmail run c ctx req =
           (case Decode_errResp run (RespBody resp) of
              Inr m \<Rightarrow> Some (''api error: '' @ m)
            | Inl e \<Rightarrow> Some (''error response with status '' @ Itoa (StatusCode resp))))
    \<and> Contains (''error response with status '' @ Itoa (StatusCode resp))
         (Itoa (StatusCode resp))
    \<and> (\<forall>pre k m post.
          ReadValue run (RespBody resp) = Inr (JObject (pre @ (k, JString m) # post))
          \<and> matches k ''error'' \<and> (\<forall>f \<in> set (pre @ post). \<not> matches (fst f) ''error'')
          \<longrightarrow> Decode_errResp run (RespBody resp) = Inr m \<and> Contains (''api error: '' @ m) m)
    \<and> (\<forall>kvs. ReadValue run (RespBody resp) = Inr (JObject kvs)
          \<and> (\<forall>f \<in> set kvs. \<not> matches (fst f) ''error'')
          \<longrightarrow> Decode_errResp run (RespBody resp) = Inr [])
    \<and> (ReadValue run (RespBody resp) = Inr JNull
          \<longrightarrow> Decode_errResp run (RespBody resp) = Inr [])
    \<and> (\<forall>e. ReadValue run (RespBody resp) = Inl e
          \<longrightarrow> Decode_errResp run (RespBody resp) = Inl e)
    \<and> (\<forall>v. ReadValue run (RespBody resp) = Inr v \<and> v \<noteq> JNull \<and> (\<forall>kvs. v \<noteq> JObject kvs)
          \<longrightarrow> Decode_errResp run (RespBody resp) = Inl UnmarshalTypeError)"
proof (intro conjI impI allI)
  assume "StatusCode resp = 200"
  with assms show "Client_SendEmail run c ctx req = None"
    by (simp add: Client_SendEmail_def StatusOK_def)
next
  assume "StatusCode resp \<noteq> 200"
  with assms show "Client_SendEmail run c ctx req =
           (case Decode_errResp run (RespBody resp) of
              Inr m \<Rightarrow> Some (''api error: '' @ m)
            | Inl e \<Rightarrow> Some (''error response with status '' @ Itoa (StatusCode resp)))"
    by (simp add: Client_SendEmail_def StatusOK_def split: sum.splits)
next
  show "Contains (''error response with status '' @ Itoa (StatusCode resp))
         (Itoa (StatusCode resp))"
    by (rule Contains_append_right)
next
  fix pre k m post
  assume "ReadValue run (RespBody resp) = Inr (JObject (pre @ (k, JString m) # post))
          \<and> matches k ''error'' \<and> (\<forall>f \<in> set (pre @ post). \<not> matches (fst f) ''error'')"
  then show "Decode_errResp run (RespBody resp) = Inr m"
    by (intro Decode_errResp_cases(4)) blast+
  show "Contains (''api error: '' @ m) m"
    by (rule Contains_append_right)
next
  fix kvs
  assume "ReadValue run (RespBody resp) = Inr (JObject kvs)
          \<and> (\<forall>f \<in> set kvs. \<not> matches (fst f) ''error'')"
  then show "Decode_errResp run (RespBody resp) = Inr []"
    by (intro Decode_errResp_cases(3)) blast+
next
  assume "ReadValue run (RespBody resp) = Inr JNull"
  then show "Decode_errResp run (RespBody resp) = Inr []"
    by (rule Decode_errResp_cases(2))
next
  fix e
  assume "ReadValue run (RespBody resp) = Inl e"
  then show "Decode_errResp run (RespBody resp) = Inl e"
    by (rule Decode_errResp_cases(1))
next
  fix v
  assume "ReadValue run (RespBody resp) = Inr v \<and> v \<noteq> JNull \<and> (\<forall>kvs. v \<noteq> JObject kvs)"
  then show "Decode_errResp run (RespBody resp) = Inl UnmarshalTypeError"
    by (intro Decode_errResp_cases(5)) blast+
qed

theorem rest_error_message_witness:
  "StatusCode resp_rate_limited = 429
   \<and> ReadValue (server resp_rate_limited) (RespBody resp_rate_limited)
       = Inr (JObject [(''error'', JString ''rate limited'')])
   \<and> Client_SendEmail (server resp_rate_limited) (NewClient ''key'') (Some Background)
         req_basic
       = Some ''api error: rate limited''
   \<and> Contains ''api error: rate limited'' ''rate limited''
   \<and> StatusCode resp_bad_gateway = 502
   \<and> ReadValue (server resp_bad_gateway) (RespBody resp_bad_gateway) = Inl SyntaxError
   \<and> Client_SendEmail (server resp_bad_gateway) (NewClient ''key'') (Some Background)
         req_basic
       = Some ''error response with status 502''
   \<and> Contains ''error response with status 502'' ''502''
   \<and> StatusCode resp_ok = 200
   \<and> Client_SendEmail (server resp_ok) (NewClient ''key'') (Some Background) req_basic
       = None"
proof -
  note ok = rest_error_message [OF sample_request_built sample_server_answers,
      of resp_ok, THEN conjunct1]
  note e1 = rest_error_message [OF sample_request_built sample_server_answers,
      of resp_rate_limited, THEN conjunct2, THEN conjunct1]
  note e2 = rest_error_message [OF sample_request_built sample_server_answers,
      of resp_bad_gateway, THEN conjunct2, THEN conjunct1]
  have s: "StatusCode resp_rate_limited = 429" "StatusCode resp_bad_gateway = 502"
    "StatusCode resp_ok = 200"
    by (simp_all add: resp_rate_limited_def resp_bad_gateway_def resp_ok_def)
  have r1: "ReadValue (server resp_rate_limited) (RespBody resp_rate_limited)
       = Inr (JObject [(''error'', JString ''rate limited'')])"
    by (simp add: server_def resp_rate_limited_def sample_read_def)
  have r2: "ReadValue (server resp_bad_gateway) (RespBody resp_bad_gateway) = Inl SyntaxError"
    by (simp add: server_def resp_bad_gateway_def sample_read_def)
  have d1: "Decode_errResp (server resp_rate_limited) (RespBody resp_rate_limited)
      = Inr ''rate limited''"
    using Decode_errResp_cases(4) [of "server resp_rate_limited"
        "RespBody resp_rate_limited" "[]" "''error''" "''rate limited''" "[]"]
      r1 matches_names
    by simp
  have d2: "Decode_errResp (server resp_bad_gateway) (RespBody resp_bad_gateway)
      = Inl SyntaxError"
    using r2 by (rule Decode_errResp_cases(1))
  have c1: "Client_SendEmail (server resp_rate_limited) (NewClient ''key'') (Some Background)
         req_basic = Some ''api error: rate limited''"
    using e1 by (simp add: s d1)
  have c2: "Client_SendEmail (server resp_bad_gateway) (NewClient ''key'') (Some Background)
         req_basic = Some ''error response with status 502''"
    using e2 by (simp add: s d2 Itoa_samples)
  have c3: "Client_SendEmail (server resp_ok) (NewClient ''key'') (Some Background) req_basic
       = None"
    using ok by (simp add: s)
  have k1: "Contains ''api error: rate limited'' ''rate limited''"
    using Contains_append_right [of "''api error: ''" "''rate limited''"] by simp
  have k2: "Contains ''error response with status 502'' ''502''"
    using Contains_append_right [of "''error response with status ''" "''502''"] by simp
  from s r1 r2 c1 c2 c3 k1 k2 show ?thesis by (intro conjI)
qed

text \<open>
  The claim as the specification states it gives, for every body that is not an object
  with an error message, the generic message with the status code. For the body of an
  empty object and the status 500 the error is the text api error with nothing after
  it, and the status code does not occur in it.
\<close>

theorem rest_error_message_counterexample:
  "StatusCode resp_empty_object = 500
   \<and> RespBody resp_empty_object = ''{}''
   \<and> ReadValue (server resp_empty_object) ''{}'' = Inr (JObject [])
   \<and> Client_SendEmail (server resp_empty_object) (NewClient ''key'') (Some Background)
         req_basic
       = Some ''api error: ''
   \<and> Itoa 500 = ''500''
   \<and> \<not> Contains ''api error: '' (Itoa 500)"
proof -
  have s: "StatusCode resp_empty_object = 500" "RespBody resp_empty_object = ''{}''"
    by (simp_all add: resp_empty_object_def)
  have r: "ReadValue (server resp_empty_object) ''{}'' = Inr (JObject [])"
    by (simp add: server_def sample_read_def)
  have d: "Decode_errResp (server resp_empty_object) ''{}'' = Inr []"
    by (simp add: Decode_errResp_def r)
  have c: "Client_SendEmail (server resp_empty_object) (NewClient ''key'') (Some Background)
         req_basic = Some ''api error: ''"
    by (simp add: Client_SendEmail_def sample_request_built sample_server_answers
        s StatusOK_def d)
  have n: "\<not> Contains ''api error: '' (Itoa 500)"
    by (simp add: Itoa_samples)
  from s r c Itoa_samples(1) n show ?thesis by (intro conjI)
qed

section \<open>The reply address in both transports\<close>








end
